theory Spec2Isabelle
  imports Main "HOL-Library.Word"
begin

section \<open>Server: the logger's request handler (server/logger/main.go)\<close>

subsection \<open>Data\<close>

text \<open>
  Go strings are byte sequences: \<open>len\<close> counts bytes and \<open>s[:255]\<close> slices bytes, as
  \<open>length\<close> and \<open>take 255\<close> do on \<open>string\<close>. \<open>int16\<close> is \<open>16 word\<close>.
\<close>

record RequestData =
  Path :: string
  Hostname :: string
  IPAddress :: string
  UserAgent :: string
  Method :: string
  Status :: "16 word"
  ResponseTime :: "16 word"
  UserID :: string
  CreatedAt :: string

text \<open>
  \<open>PrivacyLevel\<close> is a Go \<open>int\<close>; the handler only compares it with the constants,
  so it is modelled as \<open>int\<close>.
\<close>

record Payload =
  APIKey :: string
  Requests :: "RequestData list"
  Framework :: string
  PrivacyLevel :: int

definition P1 :: int where "P1 = 0"
definition P2 :: int where "P2 = 1"
definition P3 :: int where "P3 = 2"

text \<open>The values of Go's \<open>[]any\<close> argument list: strings and \<open>int16\<close>s.\<close>

datatype arg = AString string | AInt16 "16 word"

text \<open>
  The calls the handler makes to the log file and to the storage connection, in order, and
  the calls of \<open>getCountryCode\<close>.
\<close>

datatype effect =
    LogErrorToFile string string string
  | LogRequestsToFile string nat nat
  | LogToFile string
  | GetCountryCode string
  | ConnExec string "arg list"

text \<open>
  The collaborators whose code is outside the handler: the GeoIP database
  (\<open>geoip2.Open\<close>, \<open>net.ParseIP\<close>, \<open>db.Country\<close>; \<open>None\<close> is an error, \<open>Some c\<close> the
  record's \<open>Country.IsoCode\<close>, empty for an address the database does not know), the
  validators of package \<open>database\<close>, the rate limiter
  (a state \<open>'rl\<close> and its \<open>RateLimited\<close> method), the storage connection (\<open>conn.Exec\<close>
  returns \<open>Some\<close> of the error text when it fails) and gin's \<open>c.ClientIP()\<close>.
\<close>

type_synonym IP = "8 word list"

record 'rl env =
  geoip2_Open :: bool
  net_ParseIP :: "string \<Rightarrow> IP option"
  db_Country :: "IP \<Rightarrow> string option"
  ValidUserAgent :: "string \<Rightarrow> bool"
  ValidUserID :: "string \<Rightarrow> bool"
  ValidHostname :: "string \<Rightarrow> bool"
  ValidPath :: "string \<Rightarrow> bool"
  RateLimited :: "'rl \<Rightarrow> string \<Rightarrow> bool \<times> 'rl"
  conn_Exec :: "string \<Rightarrow> arg list \<Rightarrow> string option"
  ClientIP :: string

subsection \<open>getCountryCode\<close>

definition getCountryCode :: "'rl env \<Rightarrow> string \<Rightarrow> string" where
  "getCountryCode env ip_address =
     (if ip_address = [] then []
      else if \<not> geoip2_Open env then []
      else case net_ParseIP env ip_address of
             None \<Rightarrow> []
           | Some ip \<Rightarrow> (case db_Country env ip of None \<Rightarrow> [] | Some location \<Rightarrow> location))"

subsection \<open>The handler's tables\<close>

definition maxInsert :: nat where "maxInsert = 2000"

definition methodID :: "string \<Rightarrow> 16 word option" where
  "methodID = map_of
     [(''GET'', 0), (''POST'', 1), (''PUT'', 2), (''PATCH'', 3), (''DELETE'', 4),
      (''OPTIONS'', 5), (''CONNECT'', 6), (''HEAD'', 7), (''TRACE'', 8)]"

definition frameworkID :: "string \<Rightarrow> 16 word option" where
  "frameworkID = map_of
     [(''FastAPI'', 0), (''Flask'', 1), (''Gin'', 2), (''Echo'', 3), (''Express'', 4),
      (''Fastify'', 5), (''Koa'', 6), (''Chi'', 7), (''Fiber'', 8), (''Actix'', 9),
      (''Axum'', 10), (''Tornado'', 11), (''Django'', 12), (''Rails'', 13),
      (''Laravel'', 14), (''Sinatra'', 15), (''Rocket'', 16), (''ASP.NET Core'', 17)]"

subsection \<open>Formatting: \<open>%d\<close> and the placeholder group\<close>

definition digit_char :: "nat \<Rightarrow> char" where
  "digit_char d = char_of (48 + d)"

text \<open>\<open>%d\<close> of a non-negative \<open>int\<close>: its decimal digits, most significant first.\<close>

function itoa :: "nat \<Rightarrow> string" where
  "itoa n = (if n < 10 then [digit_char n] else itoa (n div 10) @ [digit_char (n mod 10)])"
  by pat_completeness auto
termination
  by (relation "measure id") auto

declare itoa.simps [simp del]

text \<open>
  \<open>fmt.Sprintf("($%d,$%d,$%d,$%d,$%d,$%d,$%d,$%d,$%d,$%d,$%d,$%d)", numArgs+1, ..., numArgs+12)\<close>
\<close>

definition Sprintf_row :: "nat \<Rightarrow> string" where
  "Sprintf_row numArgs =
     ''($'' @ itoa (numArgs + 1) @ '',$'' @ itoa (numArgs + 2) @ '',$'' @ itoa (numArgs + 3)
     @ '',$'' @ itoa (numArgs + 4) @ '',$'' @ itoa (numArgs + 5) @ '',$'' @ itoa (numArgs + 6)
     @ '',$'' @ itoa (numArgs + 7) @ '',$'' @ itoa (numArgs + 8) @ '',$'' @ itoa (numArgs + 9)
     @ '',$'' @ itoa (numArgs + 10) @ '',$'' @ itoa (numArgs + 11) @ '',$'' @ itoa (numArgs + 12)
     @ '')''"

text \<open>\<open>fmt.Sprintf("[%d] bad user agent: %s\n", i, userAgent)\<close> for each collected user agent.\<close>

fun bad_user_agents_msg :: "nat \<Rightarrow> string list \<Rightarrow> string" where
  "bad_user_agents_msg i [] = []"
| "bad_user_agents_msg i (userAgent # rest) =
     ''['' @ itoa i @ ''] bad user agent: '' @ userAgent @ [CHR 0x0A]
     @ bad_user_agents_msg (Suc i) rest"

subsection \<open>The per-event loop\<close>

definition insert_header :: string where
  "insert_header = ''INSERT INTO requests (api_key, path, hostname, ip_address, user_agent, status, response_time, method, framework, location, user_id, created_at) VALUES ''"

text \<open>The loop's variables. \<open>inserted\<close> never exceeds \<open>maxInsert\<close>, so it is a \<open>nat\<close>.\<close>

record loop_state =
  query :: string
  arguments :: "arg list"
  inserted :: nat
  badUserAgents :: "string list"
  calls :: "effect list"

text \<open>
  Lines 165 to 174: the location is inferred from the event's IP address below \<open>P3\<close>, then
  the IP address is cleared above \<open>P1\<close>. The result is the event and its location.
\<close>

definition redact :: "'rl env \<Rightarrow> int \<Rightarrow> RequestData \<Rightarrow> RequestData \<times> string" where
  "redact env privacyLevel request =
     (let location = (if privacyLevel < P3 then getCountryCode env (IPAddress request) else []);
          request = (if privacyLevel > P1 then request\<lparr>IPAddress := []\<rparr> else request)
      in (request, location))"

text \<open>\<open>if len(s) > 255 { s = s[:255] }\<close>\<close>

definition truncate255 :: "string \<Rightarrow> string" where
  "truncate255 s = (if length s > 255 then take 255 s else s)"

text \<open>
  Lines 210 to 244: the comma, the placeholder group and the twelve arguments of an event
  that has passed every check.
\<close>

definition append_row ::
  "Payload \<Rightarrow> 16 word \<Rightarrow> 16 word \<Rightarrow> string \<Rightarrow> RequestData \<Rightarrow> loop_state \<Rightarrow> loop_state" where
  "append_row payload framework method location request st =
     (let st = (if inserted st > 0 \<and> inserted st < maxInsert
                   \<and> inserted st < length (Requests payload)
                then st\<lparr>query := query st @ '',''\<rparr> else st);
          numArgs = length (arguments st);
          st = st\<lparr>query := query st @ Sprintf_row numArgs\<rparr>;
          st = st\<lparr>arguments := arguments st @
                 [AString (APIKey payload), AString (Path request), AString (Hostname request),
                  AString (IPAddress request), AString (UserAgent request),
                  AInt16 (Status request), AInt16 (ResponseTime request), AInt16 method,
                  AInt16 framework, AString location, AString (UserID request),
                  AString (CreatedAt request)]\<rparr>
      in st\<lparr>inserted := inserted st + 1\<rparr>)"

text \<open>
  One iteration after the \<open>break\<close> test (lines 165 to 244); every \<open>continue\<close> returns the
  state as it is at that point.
\<close>

definition loop_body ::
  "'rl env \<Rightarrow> Payload \<Rightarrow> 16 word \<Rightarrow> loop_state \<Rightarrow> RequestData \<Rightarrow> loop_state" where
  "loop_body env payload framework st0 request0 =
     (let st = (if PrivacyLevel payload < P3
                then st0\<lparr>calls := calls st0 @ [GetCountryCode (IPAddress request0)]\<rparr>
                else st0);
          (request, location) = redact env (PrivacyLevel payload) request0
      in case methodID (Method request) of
           None \<Rightarrow> st
         | Some method \<Rightarrow>
             let request = request\<lparr>UserAgent := truncate255 (UserAgent request)\<rparr> in
             if \<not> ValidUserAgent env (UserAgent request)
             then st\<lparr>badUserAgents := badUserAgents st @ [UserAgent request]\<rparr>
             else
               let request = request\<lparr>UserID := truncate255 (UserID request)\<rparr> in
               if \<not> ValidUserID env (UserID request) then st
               else
                 let request = request\<lparr>Hostname := truncate255 (Hostname request)\<rparr> in
                 if \<not> ValidHostname env (Hostname request) then st
                 else
                   let request = request\<lparr>Path := truncate255 (Path request)\<rparr> in
                   if \<not> ValidPath env (Path request) then st
                   else append_row payload framework method location request st)"

text \<open>\<open>for _, request := range payload.Requests\<close>, with the \<open>break\<close> at the ceiling.\<close>

fun requests_loop ::
  "'rl env \<Rightarrow> Payload \<Rightarrow> 16 word \<Rightarrow> RequestData list \<Rightarrow> loop_state \<Rightarrow> loop_state" where
  "requests_loop env payload framework [] st = st"
| "requests_loop env payload framework (request # rest) st =
     (if inserted st \<ge> maxInsert then st
      else requests_loop env payload framework rest (loop_body env payload framework st request))"

subsection \<open>The handler\<close>

record 'rl outcome =
  status :: nat
  message :: string
  effects :: "effect list"
  limiter :: 'rl

definition init_state :: loop_state where
  "init_state = \<lparr>query = insert_header, arguments = [], inserted = 0, badUserAgents = [],
                 calls = []\<rparr>"

text \<open>
  The body is \<open>None\<close> when \<open>c.BindJSON\<close> fails. The rate limiter's state is passed in and
  returned.
\<close>

definition logRequestHandler :: "'rl env \<Rightarrow> 'rl \<Rightarrow> Payload option \<Rightarrow> 'rl outcome" where
  "logRequestHandler env rl body =
     (case body of
        None \<Rightarrow>
          \<lparr>status = 400, message = ''Invalid request data.'',
           effects = [LogErrorToFile (ClientIP env) [] ''Invalid request data.''],
           limiter = rl\<rparr>
      | Some payload \<Rightarrow>
          if APIKey payload = [] then
            \<lparr>status = 400, message = ''API key requied.'',
             effects = [LogErrorToFile (ClientIP env) (APIKey payload) ''API key requied.''],
             limiter = rl\<rparr>
          else
            let (limited, rl) = RateLimited env rl (APIKey payload) in
            if limited then
              \<lparr>status = 429, message = ''Too many requests.'',
               effects = [LogErrorToFile (ClientIP env) (APIKey payload) ''Too many requests.''],
               limiter = rl\<rparr>
            else if length (Requests payload) = 0 then
              \<lparr>status = 400, message = ''Payload contains no logged requests.'',
               effects = [LogErrorToFile (ClientIP env) (APIKey payload)
                            ''Payload contains no logged requests.''],
               limiter = rl\<rparr>
            else
              (case frameworkID (Framework payload) of
                None \<Rightarrow>
                  \<lparr>status = 400, message = ''Unsupported API framework.'', effects = [],
                   limiter = rl\<rparr>
              | Some framework \<Rightarrow>
                  let st = requests_loop env payload framework (Requests payload) init_state;
                      log = calls st @ [LogRequestsToFile (APIKey payload) (inserted st)
                                          (length (Requests payload))];
                      log = (if length (badUserAgents st) > 0
                             then log @ [LogToFile (bad_user_agents_msg 0 (badUserAgents st))]
                             else log)
                  in if inserted st = 0 then
                       \<lparr>status = 400, message = ''Invalid request data.'',
                        effects = log @ [LogToFile ''No rows inserted.''], limiter = rl\<rparr>
                     else
                       let q = query st @ '';'' in
                       (case conn_Exec env q (arguments st) of
                          Some err \<Rightarrow>
                            \<lparr>status = 400, message = ''Invalid data.'',
                             effects = log @ [ConnExec q (arguments st), LogToFile err],
                             limiter = rl\<rparr>
                        | None \<Rightarrow>
                            \<lparr>status = 201, message = ''API requests logged successfully.'',
                             effects = log @ [ConnExec q (arguments st)], limiter = rl\<rparr>)))"

subsection \<open>What the handler stores\<close>

text \<open>
  An event is admitted when it passes every check of the loop body: its method is in the
  table and each validator accepts the first 255 bytes of its field.
\<close>

definition admitted :: "'rl env \<Rightarrow> RequestData \<Rightarrow> bool" where
  "admitted env r \<longleftrightarrow>
     methodID (Method r) \<noteq> None \<and> ValidUserAgent env (take 255 (UserAgent r))
     \<and> ValidUserID env (take 255 (UserID r)) \<and> ValidHostname env (take 255 (Hostname r))
     \<and> ValidPath env (take 255 (Path r))"

text \<open>The twelve column values of an admitted event, in the order of the statement's columns.\<close>

definition stored_row :: "'rl env \<Rightarrow> Payload \<Rightarrow> 16 word \<Rightarrow> RequestData \<Rightarrow> arg list" where
  "stored_row env payload framework r =
     (case methodID (Method r) of
        None \<Rightarrow> []
      | Some method \<Rightarrow>
          [AString (APIKey payload), AString (take 255 (Path r)), AString (take 255 (Hostname r)),
           AString (if PrivacyLevel payload > P1 then [] else IPAddress r),
           AString (take 255 (UserAgent r)), AInt16 (Status r), AInt16 (ResponseTime r),
           AInt16 method, AInt16 framework,
           AString (if PrivacyLevel payload < P3 then getCountryCode env (IPAddress r) else []),
           AString (take 255 (UserID r)), AString (CreatedAt r)])"

text \<open>The first \<open>room\<close> admitted events of a list, in their order.\<close>

definition admitted_rows :: "'rl env \<Rightarrow> nat \<Rightarrow> RequestData list \<Rightarrow> RequestData list" where
  "admitted_rows env room requests = take room (filter (admitted env) requests)"

text \<open>The comma test of line 211 at \<open>inserted = i\<close>.\<close>

definition separator :: "Payload \<Rightarrow> nat \<Rightarrow> string" where
  "separator payload i =
     (if i > 0 \<and> i < maxInsert \<and> i < length (Requests payload) then '','' else [])"

text \<open>What the loop writes for rows \<open>i\<close>, ..., \<open>i + n - 1\<close>.\<close>

fun render_rows :: "Payload \<Rightarrow> nat \<Rightarrow> nat \<Rightarrow> string" where
  "render_rows payload i 0 = []"
| "render_rows payload i (Suc n) =
     separator payload i @ Sprintf_row (12 * i) @ render_rows payload (Suc i) n"

text \<open>
  The statement as the specification describes it: group \<open>k\<close> (from 0) holds the
  placeholders \<open>$(12k+1)\<close> to \<open>$(12k+12)\<close> between parentheses, separated by commas; the
  groups are separated by commas and the statement ends with a semicolon.
\<close>

definition placeholder_group :: "nat \<Rightarrow> string" where
  "placeholder_group k =
     ''('' @ concat (map (\<lambda>i. (if 12 * k + 1 < i then '','' else []) @ CHR ''$'' # itoa i)
                       [12 * k + 1 ..< 12 * k + 13]) @ '')''"

definition insert_values :: "nat \<Rightarrow> string" where
  "insert_values n =
     concat (map (\<lambda>k. (if 0 < k then '','' else []) @ placeholder_group k) [0..<n])"

definition insert_statement :: "nat \<Rightarrow> string" where
  "insert_statement n = insert_header @ insert_values n @ '';''"

text \<open>
  Reading a statement back: the numbers that follow each \<open>$\<close>, in the order they occur.
\<close>

definition is_digit :: "char \<Rightarrow> bool" where
  "is_digit c \<longleftrightarrow> 48 \<le> (of_char c :: nat) \<and> (of_char c :: nat) \<le> 57"

definition digit_val :: "char \<Rightarrow> nat" where
  "digit_val c = of_char c - 48"

fun flush_index :: "nat option \<Rightarrow> nat list" where
  "flush_index None = []"
| "flush_index (Some k) = [k]"

fun scan_placeholders :: "nat option \<Rightarrow> string \<Rightarrow> nat list" where
  "scan_placeholders cur [] = flush_index cur"
| "scan_placeholders cur (c # cs) =
     (if c = CHR ''$'' then flush_index cur @ scan_placeholders (Some 0) cs
      else if is_digit c then
        (case cur of
           None \<Rightarrow> scan_placeholders None cs
         | Some k \<Rightarrow> scan_placeholders (Some (10 * k + digit_val c)) cs)
      else flush_index cur @ scan_placeholders None cs)"

definition placeholder_indices :: "string \<Rightarrow> nat list" where
  "placeholder_indices q = scan_placeholders None q"

text \<open>The storage calls of a trace, and the arguments they carry.\<close>

fun storage_calls :: "effect list \<Rightarrow> (string \<times> arg list) list" where
  "storage_calls [] = []"
| "storage_calls (ConnExec q args # es) = (q, args) # storage_calls es"
| "storage_calls (e # es) = storage_calls es"

fun country_lookups :: "effect list \<Rightarrow> string list" where
  "country_lookups [] = []"
| "country_lookups (GetCountryCode ip # es) = ip # country_lookups es"
| "country_lookups (e # es) = country_lookups es"

definition exec_arguments :: "'rl outcome \<Rightarrow> arg list" where
  "exec_arguments out = concat (map snd (storage_calls (effects out)))"

text \<open>Column \<open>c\<close> (from 0) of row \<open>i\<close> (from 0) of a flat argument list.\<close>

definition column :: "nat \<Rightarrow> arg list \<Rightarrow> nat \<Rightarrow> arg option" where
  "column c args i = (if 12 * i + c < length args then Some (args ! (12 * i + c)) else None)"

text \<open>
  The batch reaches the loop: the API key is present, the rate limiter admits it, the list
  is not empty and the framework is known, with code \<open>fw\<close>.
\<close>

definition passes_checks :: "'rl env \<Rightarrow> 'rl \<Rightarrow> Payload \<Rightarrow> 16 word \<Rightarrow> bool" where
  "passes_checks env rl p fw \<longleftrightarrow>
     APIKey p \<noteq> [] \<and> \<not> fst (RateLimited env rl (APIKey p)) \<and> Requests p \<noteq> []
     \<and> frameworkID (Framework p) = Some fw"

definition final_state :: "'rl env \<Rightarrow> Payload \<Rightarrow> 16 word \<Rightarrow> loop_state" where
  "final_state env p fw = requests_loop env p fw (Requests p) init_state"

text \<open>The tier an integer privacy level falls in.\<close>

definition privacy_tier :: "int \<Rightarrow> int" where
  "privacy_tier l = (if l \<le> 0 then P1 else if l = 1 then P2 else P3)"

section \<open>Client: the capture call (analytics/go/core/core.go)\<close>

text \<open>
  \<open>int64\<close> is \<open>64 word\<close>; the Go \<open>int\<close>s are only passed on, so they are \<open>int\<close>. Times
  and durations are nanoseconds, as \<open>time.Duration\<close> counts them; \<open>time.Since\<close> saturates
  at the ends of \<open>int64\<close>, which does not change its comparison with \<open>time.Minute\<close>.
\<close>

record core_RequestData =
  core_Hostname :: string
  core_IPAddress :: string
  core_Path :: string
  core_UserAgent :: string
  core_Method :: string
  core_ResponseTime :: "64 word"
  core_Status :: int
  core_UserID :: string
  core_CreatedAt :: string

record core_Payload =
  core_APIKey :: string
  core_Requests :: "core_RequestData list"
  core_Framework :: string
  core_PrivacyLevel :: int

text \<open>
  The package-level variables \<open>requests\<close> and \<open>lastPosted\<close>, and the payloads of the
  \<open>postRequest\<close> goroutines started so far.
\<close>

record core_state =
  requests :: "core_RequestData list"
  lastPosted :: int
  spawned :: "core_Payload list"

definition Minute :: int where "Minute = 60 * 1000000000"

text \<open>The payload that \<open>postRequest\<close> marshals and posts.\<close>

definition postRequest :: "string \<Rightarrow> core_RequestData list \<Rightarrow> string \<Rightarrow> int \<Rightarrow> core_Payload" where
  "postRequest apiKey reqs framework privacyLevel =
     \<lparr>core_APIKey = apiKey, core_Requests = reqs, core_Framework = framework,
      core_PrivacyLevel = privacyLevel\<rparr>"

text \<open>
  One call, run without interruption. \<open>clock_now\<close> is what \<open>time.Now()\<close> returns at
  line 49 and \<open>clock_since\<close> what it returns inside \<open>time.Since\<close> at line 51.
\<close>

definition LogRequest ::
  "int \<Rightarrow> int \<Rightarrow> string \<Rightarrow> core_RequestData \<Rightarrow> string \<Rightarrow> int \<Rightarrow> core_state \<Rightarrow> core_state" where
  "LogRequest clock_now clock_since apiKey request framework privacyLevel s =
     (if apiKey = [] then s
      else
        let now = clock_now;
            s = s\<lparr>requests := requests s @ [request]\<rparr>
        in if clock_since - lastPosted s > Minute then
             let s = s\<lparr>spawned := spawned s
                          @ [postRequest apiKey (requests s) framework privacyLevel]\<rparr>;
                 s = s\<lparr>requests := []\<rparr>
             in s\<lparr>lastPosted := now\<rparr>
           else s)"

subsection \<open>Two calls at once\<close>

text \<open>
  The variables are read and written without a lock, so a call is a sequence of steps, each
  one read or one write of a package-level variable, and the steps of two calls interleave.
  \<open>requests = append(requests, request)\<close> reads the slice, then writes the result.
\<close>

datatype pc = L46 | L49 | L50_read | L50_write | L51 | L52 | L53 | L54 | Returned

text \<open>
  One call: the line it is at, its arguments, the two clock readings it will get, and its
  locals (\<open>now\<close>, and the slice read from \<open>requests\<close> by the \<open>append\<close> of line 50).
\<close>

record call =
  at_line :: pc
  arg_apiKey :: string
  arg_request :: core_RequestData
  arg_framework :: string
  arg_privacyLevel :: int
  reads_now :: int
  reads_since :: int
  local_now :: int
  local_requests :: "core_RequestData list"

definition step :: "call \<Rightarrow> core_state \<Rightarrow> call \<times> core_state" where
  "step c s =
     (case at_line c of
        L46 \<Rightarrow> (if arg_apiKey c = [] then (c\<lparr>at_line := Returned\<rparr>, s)
                else (c\<lparr>at_line := L49\<rparr>, s))
      | L49 \<Rightarrow> (c\<lparr>local_now := reads_now c, at_line := L50_read\<rparr>, s)
      | L50_read \<Rightarrow> (c\<lparr>local_requests := requests s, at_line := L50_write\<rparr>, s)
      | L50_write \<Rightarrow>
          (c\<lparr>at_line := L51\<rparr>, s\<lparr>requests := local_requests c @ [arg_request c]\<rparr>)
      | L51 \<Rightarrow> (if reads_since c - lastPosted s > Minute then (c\<lparr>at_line := L52\<rparr>, s)
                else (c\<lparr>at_line := Returned\<rparr>, s))
      | L52 \<Rightarrow>
          (c\<lparr>at_line := L53\<rparr>,
           s\<lparr>spawned := spawned s
                @ [postRequest (arg_apiKey c) (requests s) (arg_framework c)
                     (arg_privacyLevel c)]\<rparr>)
      | L53 \<Rightarrow> (c\<lparr>at_line := L54\<rparr>, s\<lparr>requests := []\<rparr>)
      | L54 \<Rightarrow> (c\<lparr>at_line := Returned\<rparr>, s\<lparr>lastPosted := local_now c\<rparr>)
      | Returned \<Rightarrow> (c, s))"

text \<open>A call about to start.\<close>

definition new_call :: "int \<Rightarrow> int \<Rightarrow> string \<Rightarrow> core_RequestData \<Rightarrow> string \<Rightarrow> int \<Rightarrow> call" where
  "new_call t_now t_since k r f l =
     \<lparr>at_line = L46, arg_apiKey = k, arg_request = r, arg_framework = f, arg_privacyLevel = l,
      reads_now = t_now, reads_since = t_since, local_now = 0, local_requests = []\<rparr>"

text \<open>Two calls and the shared variables; a schedule says which call takes each step.\<close>

datatype turn = TurnA | TurnB

record system =
  call_a :: call
  call_b :: call
  shared :: core_state

definition turn_step :: "turn \<Rightarrow> system \<Rightarrow> system" where
  "turn_step t w =
     (case t of
        TurnA \<Rightarrow> (let (c, s) = step (call_a w) (shared w) in w\<lparr>call_a := c, shared := s\<rparr>)
      | TurnB \<Rightarrow> (let (c, s) = step (call_b w) (shared w) in w\<lparr>call_b := c, shared := s\<rparr>))"

fun run :: "turn list \<Rightarrow> system \<Rightarrow> system" where
  "run [] w = w"
| "run (t # ts) w = run ts (turn_step t w)"

text \<open>An event is kept when it is in the buffer or in the payload of a started flush.\<close>

definition kept :: "core_RequestData \<Rightarrow> core_state \<Rightarrow> bool" where
  "kept r s \<longleftrightarrow> r \<in> set (requests s) \<or> r \<in> set (concat (map core_Requests (spawned s)))"

section \<open>Example inputs\<close>

text \<open>
  A stand-in for the collaborators: a GeoIP database that knows one address, validators
  that accept printable ASCII, a rate limiter that admits three calls, a storage that
  accepts every statement.
\<close>

definition printable :: "string \<Rightarrow> bool" where
  "printable s = list_all (\<lambda>c. 32 \<le> (of_char c :: nat) \<and> (of_char c :: nat) < 127) s"

definition example_env :: "nat env" where
  "example_env =
     \<lparr>geoip2_Open = True,
      net_ParseIP = (\<lambda>s. if s = ''8.8.8.8'' then Some [8, 8, 8, 8] else None),
      db_Country = (\<lambda>ip. if ip = [8, 8, 8, 8] then Some ''US'' else None),
      ValidUserAgent = printable, ValidUserID = printable, ValidHostname = printable,
      ValidPath = printable,
      RateLimited = (\<lambda>n key. (3 \<le> n, Suc n)),
      conn_Exec = (\<lambda>q args. None),
      ClientIP = ''203.0.113.9''\<rparr>"

definition example_request :: RequestData where
  "example_request =
     \<lparr>Path = ''/x'', Hostname = ''example.com'', IPAddress = ''8.8.8.8'', UserAgent = ''ua'',
      Method = ''GET'', Status = 200, ResponseTime = 12, UserID = [],
      CreatedAt = ''2024-01-01T00:00:00Z''\<rparr>"

definition example_payload :: Payload where
  "example_payload =
     \<lparr>APIKey = ''k1'', Requests = [example_request], Framework = ''Flask'', PrivacyLevel = 1\<rparr>"

definition example_event :: "string \<Rightarrow> core_RequestData" where
  "example_event path =
     \<lparr>core_Hostname = ''example.com'', core_IPAddress = ''8.8.8.8'', core_Path = path,
      core_UserAgent = ''ua'', core_Method = ''GET'', core_ResponseTime = 12,
      core_Status = 200, core_UserID = [], core_CreatedAt = ''2024-01-01T00:00:00Z''\<rparr>"

text \<open>A batch of three events whose second has an unknown method.\<close>

definition example_batch :: Payload where
  "example_batch =
     example_payload\<lparr>Requests := [example_request, example_request\<lparr>Method := ''BOGUS''\<rparr>,
                                   example_request\<lparr>Path := ''/y''\<rparr>]\<rparr>"

text \<open>A batch of 3000 well-formed events.\<close>

definition example_3000 :: Payload where
  "example_3000 = example_payload\<lparr>Requests := replicate 3000 example_request\<rparr>"

text \<open>
  Validators that agree with the stand-in on values of at most 255 bytes and reject every
  longer one, and an event whose user agent has 300 bytes.
\<close>

definition short_printable :: "string \<Rightarrow> bool" where
  "short_printable s \<longleftrightarrow> printable s \<and> length s \<le> 255"

definition strict_env :: "nat env" where
  "strict_env = example_env\<lparr>ValidUserAgent := short_printable, ValidUserID := short_printable,
                             ValidHostname := short_printable, ValidPath := short_printable\<rparr>"

definition long_request :: RequestData where
  "long_request = example_request\<lparr>UserAgent := replicate 300 CHR ''a''\<rparr>"

definition example_long :: Payload where
  "example_long = example_payload\<lparr>Requests := [long_request]\<rparr>"

text \<open>
  Two calls about to start on an empty buffer, within the minute after the last flush, and a
  schedule in which both read \<open>requests\<close> before either writes it.
\<close>

definition race_start :: system where
  "race_start =
     \<lparr>call_a = new_call 1000 1000 ''k1'' (example_event ''/a'') ''Gin'' 0,
      call_b = new_call 1000 1000 ''k1'' (example_event ''/b'') ''Gin'' 0,
      shared = \<lparr>requests = [], lastPosted = 0, spawned = []\<rparr>\<rparr>"

definition race_schedule :: "turn list" where
  "race_schedule = [TurnA, TurnA, TurnA, TurnB, TurnB, TurnB, TurnA, TurnB, TurnA, TurnB]"

section \<open>Properties of the loop\<close>

lemma truncate255_take: "truncate255 s = take 255 s"
  by (simp add: truncate255_def)

lemma loop_body_admitted:
  assumes "admitted env r"
  shows "inserted (loop_body env p fw st r) = Suc (inserted st)"
    and "arguments (loop_body env p fw st r) = arguments st @ stored_row env p fw r"
    and "query (loop_body env p fw st r) =
           query st @ separator p (inserted st) @ Sprintf_row (length (arguments st))"
  using assms
  by (auto simp: loop_body_def admitted_def redact_def append_row_def truncate255_take
      stored_row_def separator_def Let_def split: option.splits)

lemma loop_body_dropped:
  assumes "\<not> admitted env r"
  shows "inserted (loop_body env p fw st r) = inserted st"
    and "arguments (loop_body env p fw st r) = arguments st"
    and "query (loop_body env p fw st r) = query st"
  using assms
  by (auto simp: loop_body_def admitted_def redact_def truncate255_take Let_def
      split: option.splits)

lemma length_stored_row: "admitted env r \<Longrightarrow> length (stored_row env p fw r) = 12"
  by (auto simp: stored_row_def admitted_def)

lemma admitted_rows_Nil [simp]: "admitted_rows env room [] = []"
  by (simp add: admitted_rows_def)

lemma admitted_rows_zero [simp]: "admitted_rows env 0 rs = []"
  by (simp add: admitted_rows_def)

lemma admitted_rows_Cons:
  "admitted_rows env (Suc room) (r # rs) =
     (if admitted env r then r # admitted_rows env room rs else admitted_rows env (Suc room) rs)"
  by (simp add: admitted_rows_def)

lemma requests_loop_invariant:
  assumes "length (arguments st) = 12 * inserted st"
    and "inserted st \<le> maxInsert"
  shows "inserted (requests_loop env p fw rs st)
           = inserted st + length (admitted_rows env (maxInsert - inserted st) rs)
       \<and> arguments (requests_loop env p fw rs st)
           = arguments st @ concat (map (stored_row env p fw)
                                      (admitted_rows env (maxInsert - inserted st) rs))
       \<and> query (requests_loop env p fw rs st)
           = query st @ render_rows p (inserted st)
                          (length (admitted_rows env (maxInsert - inserted st) rs))"
  using assms
proof (induction rs arbitrary: st)
  case Nil
  then show ?case by simp
next
  case (Cons r rs)
  show ?case
  proof (cases "inserted st \<ge> maxInsert")
    case True
    then show ?thesis by simp
  next
    case False
    then obtain room where room: "maxInsert - inserted st = Suc room"
      by (cases "maxInsert - inserted st") auto
    show ?thesis
    proof (cases "admitted env r")
      case True
      let ?st = "loop_body env p fw st r"
      have a: "length (arguments ?st) = 12 * inserted ?st"
        using Cons.prems True by (simp add: loop_body_admitted length_stored_row)
      have b: "inserted ?st \<le> maxInsert"
        using False True by (simp add: loop_body_admitted)
      have c: "maxInsert - inserted ?st = room"
        using room True by (simp add: loop_body_admitted)
      show ?thesis
        using Cons.IH [OF a b] False True room c Cons.prems
        by (simp add: admitted_rows_Cons loop_body_admitted)
    next
      case dropped: False
      let ?st = "loop_body env p fw st r"
      have a: "length (arguments ?st) = 12 * inserted ?st"
        using Cons.prems dropped by (simp add: loop_body_dropped)
      have b: "inserted ?st \<le> maxInsert"
        using Cons.prems dropped by (simp add: loop_body_dropped)
      show ?thesis
        using Cons.IH [OF a b] False dropped room
        by (simp add: admitted_rows_Cons loop_body_dropped)
    qed
  qed
qed

lemma digit_char_props:
  assumes "d < 10"
  shows "is_digit (digit_char d)" and "digit_val (digit_char d) = d"
    and "digit_char d \<noteq> CHR ''$''"
proof -
  have v: "(of_char (digit_char d) :: nat) = 48 + d"
    using assms by (simp add: digit_char_def)
  show "is_digit (digit_char d)" using v assms by (simp add: is_digit_def)
  show "digit_val (digit_char d) = d" using v by (simp add: digit_val_def)
  show "digit_char d \<noteq> CHR ''$''"
  proof
    assume "digit_char d = CHR ''$''"
    then have "(of_char (digit_char d) :: nat) = of_char (CHR ''$'')" by simp
    then show False using v by simp
  qed
qed

lemma scan_digit:
  "d < 10 \<Longrightarrow> scan_placeholders (Some k) (digit_char d # rest)
     = scan_placeholders (Some (10 * k + d)) rest"
  by (simp add: digit_char_props)

lemma scan_itoa:
  "scan_placeholders (Some k) (itoa m @ rest)
     = scan_placeholders (Some (k * 10 ^ length (itoa m) + m)) rest"
proof (induction m arbitrary: k rest rule: itoa.induct)
  case (1 n)
  show ?case
  proof (cases "n < 10")
    case True
    then show ?thesis
      by (subst (1 2) itoa.simps) (simp add: digit_char_props mult.commute)
  next
    case False
    have len: "length (itoa n) = Suc (length (itoa (n div 10)))"
      using False by (subst itoa.simps) simp
    have val: "10 * (k * 10 ^ length (itoa (n div 10)) + n div 10) + n mod 10
                 = k * 10 ^ length (itoa n) + n"
      by (simp add: len algebra_simps)
    have "scan_placeholders (Some k) (itoa n @ rest)
            = scan_placeholders (Some k) (itoa (n div 10) @ digit_char (n mod 10) # rest)"
      using False by (subst itoa.simps) simp
    also have "\<dots> = scan_placeholders (Some (k * 10 ^ length (itoa (n div 10)) + n div 10))
                        (digit_char (n mod 10) # rest)"
      by (rule "1.IH"[OF False])
    also have "\<dots> = scan_placeholders
                        (Some (10 * (k * 10 ^ length (itoa (n div 10)) + n div 10) + n mod 10)) rest"
      by (rule scan_digit) simp
    finally show ?thesis by (simp only: val)
  qed
qed

lemma scan_dollar:
  assumes "\<not> is_digit c" and "c \<noteq> CHR ''$''"
  shows "scan_placeholders (Some 0) (itoa m @ c # rest) = m # scan_placeholders None rest"
proof -
  have "scan_placeholders (Some 0) (itoa m @ c # rest) = scan_placeholders (Some m) (c # rest)"
    by (simp add: scan_itoa)
  also have "\<dots> = m # scan_placeholders None rest" using assms by simp
  finally show ?thesis .
qed

lemma not_digit_comma: "\<not> is_digit CHR '',''" "\<not> is_digit CHR '')''" "\<not> is_digit CHR ''(''"
  "\<not> is_digit CHR '';''"
  by (simp_all add: is_digit_def)

lemma scan_Sprintf_row:
  "scan_placeholders None (Sprintf_row a @ rest)
     = [a + 1, a + 2, a + 3, a + 4, a + 5, a + 6, a + 7, a + 8, a + 9, a + 10, a + 11, a + 12]
       @ scan_placeholders None rest"
  by (simp add: Sprintf_row_def scan_dollar not_digit_comma)

lemma upt_0_12: "[0..<12] = [0, 1, 2, 3, 4, 5, 6, 7, 8, 9, 10, 11::nat]"
  by (simp add: upt_conv_Cons)

lemma upt_12: "[a + 1 ..< a + 13]
  = [a + 1, a + 2, a + 3, a + 4, a + 5, a + 6, a + 7, a + 8, a + 9, a + 10, a + 11, a + 12]"
proof -
  have "a + 13 = 12 + (a + 1)" by simp
  then have "[a + 1 ..< a + 13] = map (\<lambda>i. i + (a + 1)) [0..<12]"
    using map_add_upt [of "a + 1" 12] by (simp only:)
  also have "\<dots> = [a + 1, a + 2, a + 3, a + 4, a + 5, a + 6, a + 7, a + 8, a + 9, a + 10,
                     a + 11, a + 12]"
    unfolding upt_0_12 by simp
  finally show ?thesis .
qed

lemma Sprintf_row_group: "Sprintf_row (12 * k) = placeholder_group k"
  unfolding placeholder_group_def upt_12 Sprintf_row_def by simp

lemma render_rows_values:
  "i + n \<le> maxInsert \<Longrightarrow> i + n \<le> length (Requests p) \<Longrightarrow>
   render_rows p i n
     = concat (map (\<lambda>k. (if 0 < k then '','' else []) @ placeholder_group k) [i..<i + n])"
proof (induction n arbitrary: i)
  case 0
  then show ?case by simp
next
  case (Suc n)
  have sep: "separator p i = (if 0 < i then '','' else [])"
    using Suc.prems by (simp add: separator_def)
  have "[i..<i + Suc n] = i # [Suc i..<Suc i + n]"
    by (simp add: upt_conv_Cons)
  then show ?case
    using Suc.IH [of "Suc i"] Suc.prems sep by (simp add: Sprintf_row_group)
qed

lemma scan_no_dollar:
  "CHR ''$'' \<notin> set xs \<Longrightarrow> scan_placeholders None (xs @ rest) = scan_placeholders None rest"
  by (induction xs) auto

lemma header_no_dollar: "CHR ''$'' \<notin> set insert_header"
  by (simp add: insert_header_def)

lemma storage_calls_append: "storage_calls (xs @ ys) = storage_calls xs @ storage_calls ys"
  by (induction xs rule: storage_calls.induct) auto

lemma loop_body_storage_calls:
  "storage_calls (calls (loop_body env p fw st r)) = storage_calls (calls st)"
  by (auto simp: loop_body_def redact_def append_row_def Let_def storage_calls_append
      split: option.splits)

lemma requests_loop_storage_calls:
  "storage_calls (calls (requests_loop env p fw rs st)) = storage_calls (calls st)"
  by (induction rs arbitrary: st) (auto simp: loop_body_storage_calls)

lemma final_state_inserted:
  "inserted (final_state env p fw) = length (admitted_rows env maxInsert (Requests p))"
  using requests_loop_invariant [of init_state env p fw "Requests p"]
  by (simp add: final_state_def init_state_def)

lemma final_state_arguments:
  "arguments (final_state env p fw)
     = concat (map (stored_row env p fw) (admitted_rows env maxInsert (Requests p)))"
  using requests_loop_invariant [of init_state env p fw "Requests p"]
  by (simp add: final_state_def init_state_def)

lemma length_admitted_rows:
  "length (admitted_rows env room rs) \<le> room" "length (admitted_rows env room rs) \<le> length rs"
  by (simp_all add: admitted_rows_def min.coboundedI1)

lemma final_state_query:
  "query (final_state env p fw)
     = insert_header @ insert_values (length (admitted_rows env maxInsert (Requests p)))"
  using requests_loop_invariant [of init_state env p fw "Requests p"]
    render_rows_values [of 0 "length (admitted_rows env maxInsert (Requests p))" p]
    length_admitted_rows [of env maxInsert "Requests p"]
  by (simp add: final_state_def init_state_def insert_values_def)

lemma final_state_storage_calls: "storage_calls (calls (final_state env p fw)) = []"
  by (simp add: final_state_def requests_loop_storage_calls init_state_def)

lemma handler_status:
  assumes "passes_checks env rl p fw"
  shows "status (logRequestHandler env rl (Some p))
           = (if inserted (final_state env p fw) = 0 then 400
              else case conn_Exec env (query (final_state env p fw) @ '';'')
                          (arguments (final_state env p fw)) of
                     None \<Rightarrow> 201 | Some err \<Rightarrow> 400)"
proof -
  obtain rl' where "RateLimited env rl (APIKey p) = (False, rl')"
    using assms by (cases "RateLimited env rl (APIKey p)") (simp add: passes_checks_def)
  then show ?thesis
    using assms
    by (simp add: logRequestHandler_def passes_checks_def final_state_def Let_def
        split: option.splits)
qed

lemma handler_message:
  assumes "passes_checks env rl p fw"
  shows "message (logRequestHandler env rl (Some p))
           = (if inserted (final_state env p fw) = 0 then ''Invalid request data.''
              else case conn_Exec env (query (final_state env p fw) @ '';'')
                          (arguments (final_state env p fw)) of
                     None \<Rightarrow> ''API requests logged successfully.'' | Some err \<Rightarrow> ''Invalid data.'')"
proof -
  obtain rl' where "RateLimited env rl (APIKey p) = (False, rl')"
    using assms by (cases "RateLimited env rl (APIKey p)") (simp add: passes_checks_def)
  then show ?thesis
    using assms
    by (simp add: logRequestHandler_def passes_checks_def final_state_def Let_def
        split: option.splits)
qed

lemma handler_storage_calls:
  assumes "passes_checks env rl p fw"
  shows "storage_calls (effects (logRequestHandler env rl (Some p)))
           = (if inserted (final_state env p fw) = 0 then []
              else [(query (final_state env p fw) @ '';'', arguments (final_state env p fw))])"
proof -
  obtain rl' where "RateLimited env rl (APIKey p) = (False, rl')"
    using assms by (cases "RateLimited env rl (APIKey p)") (simp add: passes_checks_def)
  then show ?thesis
    using assms final_state_storage_calls [of env p fw]
    by (simp add: logRequestHandler_def passes_checks_def final_state_def Let_def
        storage_calls_append split: option.splits)
qed

lemma handler_limiter:
  assumes "passes_checks env rl p fw"
  shows "limiter (logRequestHandler env rl (Some p)) = snd (RateLimited env rl (APIKey p))"
proof -
  obtain rl' where "RateLimited env rl (APIKey p) = (False, rl')"
    using assms by (cases "RateLimited env rl (APIKey p)") (simp add: passes_checks_def)
  then show ?thesis
    using assms
    by (simp add: logRequestHandler_def passes_checks_def final_state_def Let_def
        split: option.splits)
qed

subsection \<open>The statement read back\<close>

lemma scan_insert_values_from:
  "scan_placeholders None
     (concat (map (\<lambda>k. (if 0 < k then '','' else []) @ placeholder_group k) [i..<i + n]) @ rest)
     = [12 * i + 1 ..< 12 * (i + n) + 1] @ scan_placeholders None rest"
proof (induction n arbitrary: i)
  case 0
  then show ?case by simp
next
  case (Suc n)
  have split: "[12 * i + 1 ..< 12 * (i + Suc n) + 1]
                 = [12 * i + 1 ..< 12 * i + 13] @ [12 * Suc i + 1 ..< 12 * (Suc i + n) + 1]"
  proof -
    have "12 * i + 1 \<le> 12 * i + 13" by simp
    moreover have "12 * (i + Suc n) + 1 = (12 * i + 13) + 12 * n" by simp
    moreover have "12 * Suc i + 1 = 12 * i + 13" by simp
    moreover have "12 * (Suc i + n) + 1 = (12 * i + 13) + 12 * n" by simp
    ultimately show ?thesis
      by (metis upt_add_eq_append)
  qed
  have upt: "[i..<i + Suc n] = i # [Suc i..<Suc i + n]"
    by (simp add: upt_conv_Cons)
  have sep: "scan_placeholders None ((if 0 < i then '','' else []) @ xs) = scan_placeholders None xs"
    for xs by (simp add: not_digit_comma)
  show ?case
    unfolding upt split
    using Suc.IH [of "Suc i" ]
    by (simp only: list.map concat.simps append_assoc sep Sprintf_row_group [symmetric]
        scan_Sprintf_row upt_12)
qed

lemma placeholder_indices_statement:
  "placeholder_indices (insert_statement n) = [1..<12 * n + 1]"
proof -
  have "scan_placeholders None (insert_values n @ '';'') = [1..<12 * n + 1]"
    using scan_insert_values_from [of 0 n "'';''"]
    by (simp add: insert_values_def not_digit_comma)
  then show ?thesis
    by (simp add: placeholder_indices_def insert_statement_def scan_no_dollar header_no_dollar)
qed

subsection \<open>The stored columns\<close>

lemma admitted_rows_admitted: "r \<in> set (admitted_rows env room rs) \<Longrightarrow> admitted env r"
  by (auto simp: admitted_rows_def dest: in_set_takeD)

lemma length_concat_rows:
  "(\<And>x. x \<in> set xs \<Longrightarrow> length (f x) = 12) \<Longrightarrow> length (concat (map f xs)) = 12 * length xs"
  by (induction xs) auto

lemma column_concat_rows:
  assumes "\<And>x. x \<in> set xs \<Longrightarrow> length (f x) = 12" and "i < length xs" and "c < 12"
  shows "column c (concat (map f xs)) i = Some (f (xs ! i) ! c)"
  using assms
proof (induction xs arbitrary: i)
  case Nil
  then show ?case by simp
next
  case (Cons x xs)
  have lx: "length (f x) = 12" using Cons.prems(1) by simp
  have lxs: "length (concat (map f xs)) = 12 * length xs"
    using Cons.prems(1) by (intro length_concat_rows) simp
  show ?case
  proof (cases i)
    case 0
    then show ?thesis using lx lxs Cons.prems by (simp add: column_def nth_append)
  next
    case (Suc j)
    have IH: "column c (concat (map f xs)) j = Some (f (xs ! j) ! c)"
      using Cons.prems Suc by (intro Cons.IH) auto
    have idx: "12 * Suc j + c - 12 = 12 * j + c" by simp
    show ?thesis
      using IH lx lxs Cons.prems Suc
      by (simp add: column_def nth_append idx split: if_splits)
  qed
qed

lemma handler_exec_arguments:
  assumes "passes_checks env rl p fw"
  shows "exec_arguments (logRequestHandler env rl (Some p))
           = concat (map (stored_row env p fw) (admitted_rows env maxInsert (Requests p)))"
  using handler_storage_calls [OF assms]
  by (simp add: exec_arguments_def final_state_inserted final_state_arguments)

lemma handler_column:
  assumes "passes_checks env rl p fw" and "i < length (admitted_rows env maxInsert (Requests p))"
    and "c < 12"
  shows "column c (exec_arguments (logRequestHandler env rl (Some p))) i
           = Some (stored_row env p fw (admitted_rows env maxInsert (Requests p) ! i) ! c)"
  unfolding handler_exec_arguments [OF assms(1)]
  using assms(2,3)
  by (intro column_concat_rows) (auto dest: admitted_rows_admitted simp: length_stored_row)

lemma stored_row_columns:
  assumes "admitted env r"
  shows "stored_row env p fw r ! 1 = AString (take 255 (Path r))"
    and "stored_row env p fw r ! 2 = AString (take 255 (Hostname r))"
    and "stored_row env p fw r ! 3 = AString (if PrivacyLevel p > P1 then [] else IPAddress r)"
    and "stored_row env p fw r ! 4 = AString (take 255 (UserAgent r))"
    and "stored_row env p fw r ! 9
           = AString (if PrivacyLevel p < P3 then getCountryCode env (IPAddress r) else [])"
    and "stored_row env p fw r ! 10 = AString (take 255 (UserID r))"
  using assms by (auto simp: stored_row_def admitted_def)

lemma unknown_method_dropped: "methodID (Method r) = None \<Longrightarrow> \<not> admitted env r"
  by (simp add: admitted_def)

lemma stored_row_Requests:
  "stored_row env (p\<lparr>Requests := rs\<rparr>) fw = stored_row env p fw"
  by (simp add: stored_row_def fun_eq_iff split: option.splits)

lemma handler_response:
  assumes "passes_checks env rl p fw" and "rows = admitted_rows env maxInsert (Requests p)"
    and "args = concat (map (stored_row env p fw) rows)"
    and "q = insert_statement (length rows)"
  shows "status (logRequestHandler env rl (Some p))
           = (if rows = [] then 400 else case conn_Exec env q args of None \<Rightarrow> 201 | Some e \<Rightarrow> 400)"
    and "message (logRequestHandler env rl (Some p))
           = (if rows = [] then ''Invalid request data.''
              else case conn_Exec env q args of
                     None \<Rightarrow> ''API requests logged successfully.''
                   | Some e \<Rightarrow> ''Invalid data.'')"
    and "storage_calls (effects (logRequestHandler env rl (Some p)))
           = (if rows = [] then [] else [(q, args)])"
  using handler_status [OF assms(1)] handler_message [OF assms(1)]
    handler_storage_calls [OF assms(1)] assms(2-4)
  by (simp_all add: final_state_inserted final_state_arguments final_state_query
      insert_statement_def)

subsection \<open>Privacy levels and validators\<close>

lemma privacy_tier_tests:
  "(privacy_tier l < P3) = (l < P3)" "(privacy_tier l > P1) = (l > P1)"
  by (auto simp: privacy_tier_def P1_def P2_def P3_def)

lemma append_row_PrivacyLevel:
  "append_row (p\<lparr>PrivacyLevel := x\<rparr>) fw m loc r st = append_row p fw m loc r st"
  by (simp add: append_row_def)

lemma loop_body_privacy_tier:
  "loop_body env (p\<lparr>PrivacyLevel := privacy_tier l\<rparr>) fw st r
     = loop_body env (p\<lparr>PrivacyLevel := l\<rparr>) fw st r"
  by (simp add: loop_body_def redact_def privacy_tier_tests append_row_PrivacyLevel Let_def
      split: option.splits)

lemma requests_loop_privacy_tier:
  "requests_loop env (p\<lparr>PrivacyLevel := privacy_tier l\<rparr>) fw rs st
     = requests_loop env (p\<lparr>PrivacyLevel := l\<rparr>) fw rs st"
  by (induction rs arbitrary: st) (simp_all add: loop_body_privacy_tier)

lemma getCountryCode_validators:
  "getCountryCode (env\<lparr>ValidUserAgent := ua, ValidUserID := uid, ValidHostname := host,
                       ValidPath := path\<rparr>) = getCountryCode env"
  by (simp add: getCountryCode_def fun_eq_iff split: option.splits)

lemma length_truncate255: "length (truncate255 s) \<le> 255"
  by (simp add: truncate255_def)

lemma loop_body_validators:
  assumes "\<forall>s. length s \<le> 255 \<longrightarrow> ua s = ValidUserAgent env s"
    and "\<forall>s. length s \<le> 255 \<longrightarrow> uid s = ValidUserID env s"
    and "\<forall>s. length s \<le> 255 \<longrightarrow> host s = ValidHostname env s"
    and "\<forall>s. length s \<le> 255 \<longrightarrow> path s = ValidPath env s"
  shows "loop_body (env\<lparr>ValidUserAgent := ua, ValidUserID := uid, ValidHostname := host,
                         ValidPath := path\<rparr>) p fw st r = loop_body env p fw st r"
  using assms
  by (simp add: loop_body_def redact_def getCountryCode_validators length_truncate255 Let_def
      split: option.splits)

lemma requests_loop_validators:
  assumes "\<forall>s. length s \<le> 255 \<longrightarrow> ua s = ValidUserAgent env s"
    and "\<forall>s. length s \<le> 255 \<longrightarrow> uid s = ValidUserID env s"
    and "\<forall>s. length s \<le> 255 \<longrightarrow> host s = ValidHostname env s"
    and "\<forall>s. length s \<le> 255 \<longrightarrow> path s = ValidPath env s"
  shows "requests_loop (env\<lparr>ValidUserAgent := ua, ValidUserID := uid, ValidHostname := host,
                             ValidPath := path\<rparr>) p fw rs st = requests_loop env p fw rs st"
  by (induction rs arbitrary: st) (simp_all add: loop_body_validators [OF assms])

subsection \<open>The example inputs\<close>

lemma example_admitted: "admitted example_env example_request"
  by (simp add: admitted_def example_env_def example_request_def methodID_def printable_def)

lemma example_passes_checks:
  "passes_checks example_env 0 (example_payload\<lparr>PrivacyLevel := l\<rparr>) 1"
  by (simp add: passes_checks_def example_env_def example_payload_def frameworkID_def)

lemma example_admitted_rows:
  "admitted_rows example_env maxInsert (Requests example_payload) = [example_request]"
  by (simp add: admitted_rows_def example_payload_def example_admitted maxInsert_def)

lemma example_getCountryCode:
  "getCountryCode example_env ''8.8.8.8'' = ''US''" "getCountryCode example_env [] = []"
  by (simp_all add: getCountryCode_def example_env_def)

lemma example_IPAddress: "IPAddress example_request = ''8.8.8.8''"
  by (simp add: example_request_def)

lemma example_conn_Exec: "conn_Exec example_env q args = None"
  by (simp add: example_env_def)

lemma insert_statement_2:
  "insert_statement 2
     = insert_header @ ''($1,$2,$3,$4,$5,$6,$7,$8,$9,$10,$11,$12),($13,$14,$15,$16,$17,$18,$19,$20,$21,$22,$23,$24);''"
  by code_simp

lemma example_batch_admitted:
  "filter (admitted example_env) (Requests example_batch)
     = [example_request, example_request\<lparr>Path := ''/y''\<rparr>]"
  by (simp add: example_batch_def example_payload_def admitted_def example_env_def
      example_request_def methodID_def printable_def)

lemma example_batch_passes: "passes_checks example_env 0 example_batch 1"
  by (simp add: passes_checks_def example_env_def example_payload_def example_batch_def
      frameworkID_def)

lemma example_batch_arguments:
  "concat (map (stored_row example_env example_batch 1)
             (filter (admitted example_env) (Requests example_batch)))
     = [AString ''k1'', AString ''/x'', AString ''example.com'', AString [], AString ''ua'',
        AInt16 200, AInt16 12, AInt16 0, AInt16 1, AString ''US'', AString [],
        AString ''2024-01-01T00:00:00Z'',
        AString ''k1'', AString ''/y'', AString ''example.com'', AString [], AString ''ua'',
        AInt16 200, AInt16 12, AInt16 0, AInt16 1, AString ''US'', AString [],
        AString ''2024-01-01T00:00:00Z'']"
  unfolding example_batch_admitted
  by (simp add: stored_row_def example_batch_def example_payload_def example_request_def
      methodID_def P1_def P3_def example_getCountryCode)

section \<open>Properties of the capture call\<close>

lemma kept_LogRequest:
  "kept r s \<Longrightarrow> kept r (LogRequest t_now t_since k e f l s)"
  by (auto simp: kept_def LogRequest_def postRequest_def Let_def)

lemma kept_LogRequest_new:
  "k \<noteq> [] \<Longrightarrow> kept e (LogRequest t_now t_since k e f l s)"
  by (auto simp: kept_def LogRequest_def postRequest_def Let_def)

lemma run_append: "run (xs @ ys) w = run ys (run xs w)"
  by (induction xs arbitrary: w) auto

lemma run_call_a_alone:
  assumes "at_line (call_a w) = L46"
  shows "shared (run (replicate 8 TurnA) w)
           = LogRequest (reads_now (call_a w)) (reads_since (call_a w)) (arg_apiKey (call_a w))
               (arg_request (call_a w)) (arg_framework (call_a w)) (arg_privacyLevel (call_a w))
               (shared w)
       \<and> at_line (call_a (run (replicate 8 TurnA) w)) = Returned
       \<and> call_b (run (replicate 8 TurnA) w) = call_b w"
proof (cases "arg_apiKey (call_a w) = []")
  case True
  then show ?thesis
    using assms by (simp add: eval_nat_numeral turn_step_def step_def LogRequest_def)
next
  case False
  show ?thesis
  proof (cases "reads_since (call_a w) - lastPosted (shared w) > Minute")
    case True
    then show ?thesis
      using assms False
      by (simp add: eval_nat_numeral turn_step_def step_def LogRequest_def Let_def)
  next
    case no_flush: False
    then show ?thesis
      using assms False
      by (simp add: eval_nat_numeral turn_step_def step_def LogRequest_def Let_def)
  qed
qed

lemma run_call_b_alone:
  assumes "at_line (call_b w) = L46"
  shows "shared (run (replicate 8 TurnB) w)
           = LogRequest (reads_now (call_b w)) (reads_since (call_b w)) (arg_apiKey (call_b w))
               (arg_request (call_b w)) (arg_framework (call_b w)) (arg_privacyLevel (call_b w))
               (shared w)
       \<and> at_line (call_b (run (replicate 8 TurnB) w)) = Returned
       \<and> call_a (run (replicate 8 TurnB) w) = call_a w"
proof (cases "arg_apiKey (call_b w) = []")
  case True
  then show ?thesis
    using assms by (simp add: eval_nat_numeral turn_step_def step_def LogRequest_def)
next
  case False
  show ?thesis
  proof (cases "reads_since (call_b w) - lastPosted (shared w) > Minute")
    case True
    then show ?thesis
      using assms False
      by (simp add: eval_nat_numeral turn_step_def step_def LogRequest_def Let_def)
  next
    case no_flush: False
    then show ?thesis
      using assms False
      by (simp add: eval_nat_numeral turn_step_def step_def LogRequest_def Let_def)
  qed
qed

section \<open>The claims\<close>

text \<open>
  C1. For every event stored by a batch that reaches the storage call, the stored IP address
  (column 3) and location (column 9) follow the privacy tier: under \<open>P1\<close> the IP address
  is the input's and the location is what \<open>getCountryCode\<close> infers from it; under \<open>P2\<close>
  the IP address is empty and the location is still inferred from the input's IP address;
  under \<open>P3\<close> both are empty. \<open>getCountryCode\<close> returns the empty string on an empty IP
  address, an unavailable database, a parse failure, a lookup error or a record without
  country code, and the record's country code otherwise.
\<close>

theorem stored_ip_and_location:
  assumes "passes_checks env rl p fw"
    and "i < length (admitted_rows env maxInsert (Requests p))"
    and "r = admitted_rows env maxInsert (Requests p) ! i"
    and "args = exec_arguments (logRequestHandler env rl (Some p))"
  shows "(PrivacyLevel p = P1 \<longrightarrow>
            column 3 args i = Some (AString (IPAddress r))
          \<and> column 9 args i = Some (AString (getCountryCode env (IPAddress r))))
       \<and> (PrivacyLevel p = P2 \<longrightarrow>
            column 3 args i = Some (AString [])
          \<and> column 9 args i = Some (AString (getCountryCode env (IPAddress r))))
       \<and> (PrivacyLevel p = P3 \<longrightarrow>
            column 3 args i = Some (AString []) \<and> column 9 args i = Some (AString []))
       \<and> (ip = [] \<or> \<not> geoip2_Open env \<or> net_ParseIP env ip = None
            \<or> (\<exists>a. net_ParseIP env ip = Some a
                  \<and> (db_Country env a = None \<or> db_Country env a = Some []))
          \<longrightarrow> getCountryCode env ip = [])
       \<and> (ip \<noteq> [] \<and> geoip2_Open env \<and> net_ParseIP env ip = Some a \<and> db_Country env a = Some c
          \<longrightarrow> getCountryCode env ip = c)"
proof -
  have adm: "admitted env r"
    using assms(2,3) admitted_rows_admitted [OF nth_mem [OF assms(2)]] by simp
  have c3: "column 3 args i = Some (AString (if PrivacyLevel p > P1 then [] else IPAddress r))"
    using handler_column [OF assms(1,2), of 3] stored_row_columns(3) [OF adm] assms(3,4)
    by simp
  have c9: "column 9 args i
              = Some (AString (if PrivacyLevel p < P3 then getCountryCode env (IPAddress r) else []))"
    using handler_column [OF assms(1,2), of 9] stored_row_columns(5) [OF adm] assms(3,4)
    by simp
  have geo_fail: "ip = [] \<or> \<not> geoip2_Open env \<or> net_ParseIP env ip = None
            \<or> (\<exists>a. net_ParseIP env ip = Some a
                  \<and> (db_Country env a = None \<or> db_Country env a = Some []))
          \<longrightarrow> getCountryCode env ip = []"
    by (auto simp: getCountryCode_def)
  have geo_ok: "ip \<noteq> [] \<and> geoip2_Open env \<and> net_ParseIP env ip = Some a \<and> db_Country env a = Some c
          \<longrightarrow> getCountryCode env ip = c"
    by (auto simp: getCountryCode_def)
  show ?thesis
    using c3 c9 geo_fail geo_ok by (simp add: P1_def P2_def P3_def)
qed

theorem stored_ip_and_location_witness:
  "passes_checks example_env 0 (example_payload\<lparr>PrivacyLevel := P2\<rparr>) 1
   \<and> 0 < length (admitted_rows example_env maxInsert
                   (Requests (example_payload\<lparr>PrivacyLevel := P2\<rparr>)))
   \<and> column 3 (exec_arguments (logRequestHandler example_env 0
                 (Some (example_payload\<lparr>PrivacyLevel := P1\<rparr>)))) 0
       = Some (AString ''8.8.8.8'')
   \<and> column 9 (exec_arguments (logRequestHandler example_env 0
                 (Some (example_payload\<lparr>PrivacyLevel := P1\<rparr>)))) 0
       = Some (AString ''US'')
   \<and> column 3 (exec_arguments (logRequestHandler example_env 0
                 (Some (example_payload\<lparr>PrivacyLevel := P2\<rparr>)))) 0
       = Some (AString [])
   \<and> column 9 (exec_arguments (logRequestHandler example_env 0
                 (Some (example_payload\<lparr>PrivacyLevel := P2\<rparr>)))) 0
       = Some (AString ''US'')
   \<and> column 3 (exec_arguments (logRequestHandler example_env 0
                 (Some (example_payload\<lparr>PrivacyLevel := P3\<rparr>)))) 0
       = Some (AString [])
   \<and> column 9 (exec_arguments (logRequestHandler example_env 0
                 (Some (example_payload\<lparr>PrivacyLevel := P3\<rparr>)))) 0
       = Some (AString [])
   \<and> getCountryCode example_env [] = []
   \<and> getCountryCode example_env ''8.8.8.8'' = ''US''"
proof -
  have rows: "0 < length (admitted_rows example_env maxInsert
                            (Requests (example_payload\<lparr>PrivacyLevel := l\<rparr>)))" for l
    by (simp add: example_admitted_rows)
  note t = stored_ip_and_location [OF example_passes_checks rows refl refl]
  show ?thesis
    using t [of P1 "[]"] t [of P2 "[]"]
      t [of P3 "''8.8.8.8''" "[8, 8, 8, 8]" "''US''"]
    by (simp add: example_admitted_rows example_getCountryCode example_passes_checks
        example_IPAddress)
qed

text \<open>
  C2. A batch that reaches the loop with \<open>n\<close> admitted events, \<open>1 \<le> n \<le> 2000\<close>, makes
  exactly one storage call. Its statement is the header, \<open>n\<close> placeholder groups separated
  by commas, and a semicolon; read back, its placeholder indices are \<open>1, ..., 12 n\<close> in
  increasing order without a gap. Its argument list is the rows of the admitted events in
  their input order, dropped events contributing nothing, and has length \<open>n * 12\<close>.
\<close>

theorem one_statement_contiguous_placeholders:
  assumes "passes_checks env rl p fw"
    and "n = length (filter (admitted env) (Requests p))"
    and "1 \<le> n" and "n \<le> 2000"
  shows "storage_calls (effects (logRequestHandler env rl (Some p)))
           = [(insert_statement n,
               concat (map (stored_row env p fw) (filter (admitted env) (Requests p))))]
       \<and> placeholder_indices (insert_statement n) = [1..<12 * n + 1]
       \<and> length (concat (map (stored_row env p fw) (filter (admitted env) (Requests p))))
           = n * 12"
proof -
  have rows: "admitted_rows env maxInsert (Requests p) = filter (admitted env) (Requests p)"
    using assms(2,4) by (simp add: admitted_rows_def maxInsert_def)
  have len: "length (concat (map (stored_row env p fw) (filter (admitted env) (Requests p))))
               = 12 * n"
    unfolding assms(2) by (intro length_concat_rows) (simp add: length_stored_row)
  have nonempty: "filter (admitted env) (Requests p) \<noteq> []"
    using assms(2,3) by auto
  have "storage_calls (effects (logRequestHandler env rl (Some p)))
          = [(insert_statement n,
              concat (map (stored_row env p fw) (filter (admitted env) (Requests p))))]"
    using handler_storage_calls [OF assms(1)] assms(2) nonempty
    by (simp add: final_state_inserted final_state_arguments final_state_query rows
        insert_statement_def)
  then show ?thesis
    using len by (simp add: placeholder_indices_statement)
qed

theorem one_statement_contiguous_placeholders_witness:
  "passes_checks example_env 0 example_batch 1
   \<and> (2::nat) = length (filter (admitted example_env) (Requests example_batch))
   \<and> storage_calls (effects (logRequestHandler example_env 0 (Some example_batch)))
       = [(insert_header @ ''($1,$2,$3,$4,$5,$6,$7,$8,$9,$10,$11,$12),($13,$14,$15,$16,$17,$18,$19,$20,$21,$22,$23,$24);'',
           [AString ''k1'', AString ''/x'', AString ''example.com'', AString [], AString ''ua'',
            AInt16 200, AInt16 12, AInt16 0, AInt16 1, AString ''US'', AString [],
            AString ''2024-01-01T00:00:00Z'',
            AString ''k1'', AString ''/y'', AString ''example.com'', AString [], AString ''ua'',
            AInt16 200, AInt16 12, AInt16 0, AInt16 1, AString ''US'', AString [],
            AString ''2024-01-01T00:00:00Z''])]
   \<and> placeholder_indices (insert_statement 2)
       = [1, 2, 3, 4, 5, 6, 7, 8, 9, 10, 11, 12, 13, 14, 15, 16, 17, 18, 19, 20, 21, 22, 23, 24]"
proof -
  have n: "(2::nat) = length (filter (admitted example_env) (Requests example_batch))"
    by (simp add: example_batch_admitted)
  have idx: "[1..<12 * 2 + 1]
    = [1, 2, 3, 4, 5, 6, 7, 8, 9, 10, 11, 12, 13, 14, 15, 16, 17, 18, 19, 20, 21, 22, 23, 24::nat]"
    by (simp add: upt_conv_Cons)
  note t = one_statement_contiguous_placeholders [OF example_batch_passes n]
  have calls: "storage_calls (effects (logRequestHandler example_env 0 (Some example_batch)))
       = [(insert_header @ ''($1,$2,$3,$4,$5,$6,$7,$8,$9,$10,$11,$12),($13,$14,$15,$16,$17,$18,$19,$20,$21,$22,$23,$24);'',
           [AString ''k1'', AString ''/x'', AString ''example.com'', AString [], AString ''ua'',
            AInt16 200, AInt16 12, AInt16 0, AInt16 1, AString ''US'', AString [],
            AString ''2024-01-01T00:00:00Z'',
            AString ''k1'', AString ''/y'', AString ''example.com'', AString [], AString ''ua'',
            AInt16 200, AInt16 12, AInt16 0, AInt16 1, AString ''US'', AString [],
            AString ''2024-01-01T00:00:00Z''])]"
    using t [THEN conjunct1] by (simp only: insert_statement_2 example_batch_arguments)
  have indices: "placeholder_indices (insert_statement 2)
       = [1, 2, 3, 4, 5, 6, 7, 8, 9, 10, 11, 12, 13, 14, 15, 16, 17, 18, 19, 20, 21, 22, 23, 24]"
    using t [THEN conjunct2, THEN conjunct1] by (simp only: idx)
  show ?thesis
    using example_batch_passes n calls indices by (intro conjI)
qed

text \<open>
  C3. When no event of a batch that reaches the loop is admitted, the handler answers 400
  "Invalid request data." and makes no storage call. An event with an unknown method is not
  admitted, and it does not fail the batch: the response and the storage call are those of
  the batch without that event (provided other events remain).
\<close>

theorem zero_admitted_rejected:
  assumes "passes_checks env rl p fw"
    and "out = logRequestHandler env rl (Some p)"
    and "out' = logRequestHandler env rl (Some (p\<lparr>Requests := xs @ ys\<rparr>))"
  shows "(filter (admitted env) (Requests p) = [] \<longrightarrow>
            status out = 400 \<and> message out = ''Invalid request data.''
          \<and> storage_calls (effects out) = [])
       \<and> (methodID (Method r) = None \<longrightarrow> \<not> admitted env r)
       \<and> (Requests p = xs @ r # ys \<and> methodID (Method r) = None \<and> xs @ ys \<noteq> [] \<longrightarrow>
            status out = status out' \<and> message out = message out'
          \<and> storage_calls (effects out) = storage_calls (effects out')
          \<and> limiter out = limiter out')"
proof (intro conjI impI)
  assume none: "filter (admitted env) (Requests p) = []"
  then have rows: "admitted_rows env maxInsert (Requests p) = []"
    by (simp add: admitted_rows_def)
  show "status out = 400" "message out = ''Invalid request data.''"
    "storage_calls (effects out) = []"
    unfolding assms(2)
    by (simp_all add: handler_response [OF assms(1) refl refl refl] rows)
next
  assume "methodID (Method r) = None"
  then show "\<not> admitted env r" by (rule unknown_method_dropped)
next
  assume h: "Requests p = xs @ r # ys \<and> methodID (Method r) = None \<and> xs @ ys \<noteq> []"
  have pc: "passes_checks env rl (p\<lparr>Requests := xs @ ys\<rparr>) fw"
    using assms(1) h by (simp add: passes_checks_def)
  have rows: "admitted_rows env maxInsert (Requests (p\<lparr>Requests := xs @ ys\<rparr>))
                = admitted_rows env maxInsert (Requests p)"
    using h unknown_method_dropped [of r env] by (simp add: admitted_rows_def)
  show "status out = status out'" "message out = message out'"
    "storage_calls (effects out) = storage_calls (effects out')"
    unfolding assms(2,3)
    by (simp_all only: handler_response [OF assms(1) refl refl refl]
        handler_response [OF pc refl refl refl] rows stored_row_Requests)
  show "limiter out = limiter out'"
    unfolding assms(2,3) by (simp add: handler_limiter [OF assms(1)] handler_limiter [OF pc])
qed

theorem zero_admitted_rejected_witness:
  "passes_checks example_env 0
     (example_payload\<lparr>Requests := [example_request\<lparr>Method := ''BOGUS''\<rparr>]\<rparr>) 1
   \<and> filter (admitted example_env)
        (Requests (example_payload\<lparr>Requests := [example_request\<lparr>Method := ''BOGUS''\<rparr>]\<rparr>)) = []
   \<and> status (logRequestHandler example_env 0
        (Some (example_payload\<lparr>Requests := [example_request\<lparr>Method := ''BOGUS''\<rparr>]\<rparr>))) = 400
   \<and> message (logRequestHandler example_env 0
        (Some (example_payload\<lparr>Requests := [example_request\<lparr>Method := ''BOGUS''\<rparr>]\<rparr>)))
       = ''Invalid request data.''
   \<and> storage_calls (effects (logRequestHandler example_env 0
        (Some (example_payload\<lparr>Requests := [example_request\<lparr>Method := ''BOGUS''\<rparr>]\<rparr>)))) = []
   \<and> passes_checks example_env 0 example_batch 1
   \<and> Requests example_batch
       = [example_request] @ example_request\<lparr>Method := ''BOGUS''\<rparr>
           # [example_request\<lparr>Path := ''/y''\<rparr>]
   \<and> methodID (Method (example_request\<lparr>Method := ''BOGUS''\<rparr>)) = None
   \<and> status (logRequestHandler example_env 0 (Some example_batch))
       = status (logRequestHandler example_env 0
           (Some (example_batch\<lparr>Requests := [example_request] @ [example_request\<lparr>Path := ''/y''\<rparr>]\<rparr>)))
   \<and> storage_calls (effects (logRequestHandler example_env 0 (Some example_batch)))
       = storage_calls (effects (logRequestHandler example_env 0
           (Some (example_batch\<lparr>Requests := [example_request] @ [example_request\<lparr>Path := ''/y''\<rparr>]\<rparr>))))
   \<and> status (logRequestHandler example_env 0 (Some example_batch)) = 201"
proof -
  let ?bogus = "example_request\<lparr>Method := ''BOGUS''\<rparr>"
  let ?pa = "example_payload\<lparr>Requests := [?bogus]\<rparr>"
  have bogus: "methodID (Method ?bogus) = None"
    by (simp add: methodID_def)
  have pa: "passes_checks example_env 0 ?pa 1"
    by (simp add: passes_checks_def example_env_def example_payload_def frameworkID_def)
  have none: "filter (admitted example_env) (Requests ?pa) = []"
    using bogus by (simp add: admitted_def)
  have split: "Requests example_batch
       = [example_request] @ ?bogus # [example_request\<lparr>Path := ''/y''\<rparr>]"
    by (simp add: example_batch_def)
  have ok: "status (logRequestHandler example_env 0 (Some example_batch)) = 201"
    using handler_response(1) [OF example_batch_passes refl refl refl]
    by (simp add: admitted_rows_def example_batch_admitted maxInsert_def example_conn_Exec)
  note a = zero_admitted_rejected [where xs = "[]" and ys = "[]" and r = ?bogus, OF pa refl refl]
  note b = zero_admitted_rejected [where xs = "[example_request]"
      and ys = "[example_request\<lparr>Path := ''/y''\<rparr>]" and r = ?bogus,
      OF example_batch_passes refl refl]
  show ?thesis
    using a b pa none split bogus ok example_batch_passes by simp
qed

text \<open>
  C4. A batch whose API key is rate-limited is answered with 429 "Too many requests.": the
  only effect is the error log line, so there is no storage call and no country lookup,
  whatever the request list and the framework are (the check comes before the empty-list
  and framework checks and before the loop). The rate limiter is not consulted when parsing
  fails or when the API key is missing: its state is returned as it was.
\<close>

theorem rate_limited_rejected_first:
  "logRequestHandler env rl None
     = \<lparr>status = 400, message = ''Invalid request data.'',
        effects = [LogErrorToFile (ClientIP env) [] ''Invalid request data.''], limiter = rl\<rparr>
   \<and> (APIKey p0 = [] \<longrightarrow>
        logRequestHandler env rl (Some p0)
          = \<lparr>status = 400, message = ''API key requied.'',
             effects = [LogErrorToFile (ClientIP env) [] ''API key requied.''], limiter = rl\<rparr>)
   \<and> (APIKey p \<noteq> [] \<and> fst (RateLimited env rl (APIKey p)) \<longrightarrow>
        logRequestHandler env rl (Some p)
          = \<lparr>status = 429, message = ''Too many requests.'',
             effects = [LogErrorToFile (ClientIP env) (APIKey p) ''Too many requests.''],
             limiter = snd (RateLimited env rl (APIKey p))\<rparr>
        \<and> storage_calls (effects (logRequestHandler env rl (Some p))) = []
        \<and> country_lookups (effects (logRequestHandler env rl (Some p))) = [])"
  by (cases "RateLimited env rl (APIKey p)") (simp add: logRequestHandler_def)

theorem rate_limited_rejected_first_witness:
  "APIKey (example_payload\<lparr>APIKey := []\<rparr>) = []
   \<and> logRequestHandler example_env 3 (Some (example_payload\<lparr>APIKey := []\<rparr>))
       = \<lparr>status = 400, message = ''API key requied.'',
          effects = [LogErrorToFile ''203.0.113.9'' [] ''API key requied.''], limiter = 3\<rparr>
   \<and> APIKey (example_payload\<lparr>Requests := [], Framework := ''Unknown''\<rparr>) \<noteq> []
   \<and> fst (RateLimited example_env 3
            (APIKey (example_payload\<lparr>Requests := [], Framework := ''Unknown''\<rparr>)))
   \<and> logRequestHandler example_env 3
         (Some (example_payload\<lparr>Requests := [], Framework := ''Unknown''\<rparr>))
       = \<lparr>status = 429, message = ''Too many requests.'',
          effects = [LogErrorToFile ''203.0.113.9'' ''k1'' ''Too many requests.''],
          limiter = 4\<rparr>
   \<and> logRequestHandler example_env 3 (Some example_payload)
       = \<lparr>status = 429, message = ''Too many requests.'',
          effects = [LogErrorToFile ''203.0.113.9'' ''k1'' ''Too many requests.''],
          limiter = 4\<rparr>"
  using rate_limited_rejected_first
      [of example_env 3 "example_payload\<lparr>APIKey := []\<rparr>"
          "example_payload\<lparr>Requests := [], Framework := ''Unknown''\<rparr>"]
    rate_limited_rejected_first [of example_env 3 "example_payload\<lparr>APIKey := []\<rparr>" example_payload]
  by (simp add: example_env_def example_payload_def)

text \<open>
  C5. At most 2000 rows go into the single insert statement: the rows are the first 2000
  admitted events. When every event of a batch of at least 2000 events is well-formed and
  the storage write succeeds, exactly the first 2000 are inserted, the others are left out
  and the response is 201; for 3000 events, 1000 are left out.
\<close>

theorem ceiling_2000_rows:
  assumes "passes_checks env rl p fw"
    and "rows = admitted_rows env maxInsert (Requests p)"
    and "out = logRequestHandler env rl (Some p)"
  shows "length rows \<le> 2000
       \<and> exec_arguments out = concat (map (stored_row env p fw) rows)
       \<and> length (exec_arguments out) = 12 * length rows
       \<and> storage_calls (effects out)
           = (if rows = [] then []
              else [(insert_statement (length rows), concat (map (stored_row env p fw) rows))])
       \<and> (2000 \<le> length (Requests p) \<and> (\<forall>r \<in> set (Requests p). admitted env r)
            \<and> conn_Exec env (insert_statement 2000)
                 (concat (map (stored_row env p fw) (take 2000 (Requests p)))) = None
          \<longrightarrow> rows = take 2000 (Requests p) \<and> length rows = 2000
            \<and> length (drop 2000 (Requests p)) = length (Requests p) - 2000
            \<and> storage_calls (effects out)
                = [(insert_statement 2000,
                    concat (map (stored_row env p fw) (take 2000 (Requests p))))]
            \<and> status out = 201 \<and> message out = ''API requests logged successfully.'')"
proof -
  note resp = handler_response [OF assms(1) assms(2) refl refl]
  have bound: "length rows \<le> 2000"
    using length_admitted_rows(1) [of env maxInsert "Requests p"] assms(2)
    by (simp add: maxInsert_def)
  have args: "exec_arguments out = concat (map (stored_row env p fw) rows)"
    unfolding assms(2,3) by (rule handler_exec_arguments [OF assms(1)])
  have len: "length (exec_arguments out) = 12 * length rows"
    unfolding args assms(2)
    by (intro length_concat_rows) (auto dest: admitted_rows_admitted simp: length_stored_row)
  have calls: "storage_calls (effects out)
           = (if rows = [] then []
              else [(insert_statement (length rows), concat (map (stored_row env p fw) rows))])"
    unfolding assms(3) by (rule resp(3))
  have full: "rows = take 2000 (Requests p) \<and> length rows = 2000
            \<and> length (drop 2000 (Requests p)) = length (Requests p) - 2000
            \<and> storage_calls (effects out)
                = [(insert_statement 2000,
                    concat (map (stored_row env p fw) (take 2000 (Requests p))))]
            \<and> status out = 201 \<and> message out = ''API requests logged successfully.''"
    if h: "2000 \<le> length (Requests p) \<and> (\<forall>r \<in> set (Requests p). admitted env r)
            \<and> conn_Exec env (insert_statement 2000)
                 (concat (map (stored_row env p fw) (take 2000 (Requests p)))) = None"
  proof -
    have all: "filter (admitted env) (Requests p) = Requests p"
      using h by simp
    have r: "rows = take 2000 (Requests p)"
      using assms(2) all by (simp add: admitted_rows_def maxInsert_def)
    have l: "length rows = 2000" using r h by simp
    have ne: "rows \<noteq> []" using l by auto
    show ?thesis
      using r l ne h resp(1,2) calls unfolding assms(3) by simp
  qed
  show ?thesis
    using bound args len calls full by blast
qed

theorem ceiling_2000_rows_witness:
  "passes_checks example_env 0 example_3000 1
   \<and> length (Requests example_3000) = 3000
   \<and> admitted_rows example_env maxInsert (Requests example_3000) = replicate 2000 example_request
   \<and> length (drop 2000 (Requests example_3000)) = 1000
   \<and> storage_calls (effects (logRequestHandler example_env 0 (Some example_3000)))
       = [(insert_statement 2000,
           concat (map (stored_row example_env example_3000 1) (replicate 2000 example_request)))]
   \<and> length (exec_arguments (logRequestHandler example_env 0 (Some example_3000))) = 24000
   \<and> status (logRequestHandler example_env 0 (Some example_3000)) = 201"
proof -
  have pc: "passes_checks example_env 0 example_3000 1"
    by (simp add: passes_checks_def example_env_def example_payload_def example_3000_def
        frameworkID_def)
  have reqs: "Requests example_3000 = replicate 3000 example_request"
    by (simp add: example_3000_def)
  have hyp: "2000 \<le> length (Requests example_3000)
       \<and> (\<forall>r \<in> set (Requests example_3000). admitted example_env r)
       \<and> conn_Exec example_env (insert_statement 2000)
            (concat (map (stored_row example_env example_3000 1)
                       (take 2000 (Requests example_3000)))) = None"
    by (simp add: reqs example_admitted example_conn_Exec)
  note t = ceiling_2000_rows [OF pc refl refl]
  note full = t [THEN conjunct2, THEN conjunct2, THEN conjunct2, THEN conjunct2, rule_format,
      OF hyp]
  have rows: "admitted_rows example_env maxInsert (Requests example_3000)
                = replicate 2000 example_request"
    using full [THEN conjunct1] by (simp add: reqs)
  have len: "length (exec_arguments (logRequestHandler example_env 0 (Some example_3000)))
               = 24000"
    using t [THEN conjunct2, THEN conjunct2, THEN conjunct1] by (simp add: rows)
  have calls: "storage_calls (effects (logRequestHandler example_env 0 (Some example_3000)))
       = [(insert_statement 2000,
           concat (map (stored_row example_env example_3000 1) (replicate 2000 example_request)))]"
    using full by (simp add: reqs)
  have st: "status (logRequestHandler example_env 0 (Some example_3000)) = 201"
    using full by simp
  have excluded: "length (drop 2000 (Requests example_3000)) = 1000"
    using full by (simp add: reqs)
  show ?thesis
    using pc rows len calls st excluded by (simp add: reqs)
qed

text \<open>
  C6. The validators of user agent, user ID, hostname and path only see values truncated to
  255 bytes: replacing them by validators that agree with them on values of at most 255
  bytes changes nothing in the handler's outcome. Every stored event has passed the four
  validators on its truncated values, and the truncated values are what is stored.
\<close>

theorem validation_on_truncated_fields:
  assumes "\<forall>s. length s \<le> 255 \<longrightarrow> ua s = ValidUserAgent env s"
    and "\<forall>s. length s \<le> 255 \<longrightarrow> uid s = ValidUserID env s"
    and "\<forall>s. length s \<le> 255 \<longrightarrow> host s = ValidHostname env s"
    and "\<forall>s. length s \<le> 255 \<longrightarrow> path s = ValidPath env s"
    and "env' = env\<lparr>ValidUserAgent := ua, ValidUserID := uid, ValidHostname := host,
                     ValidPath := path\<rparr>"
    and "args = exec_arguments (logRequestHandler env rl (Some p))"
  shows "logRequestHandler env' rl body = logRequestHandler env rl body
       \<and> (passes_checks env rl p fw \<and> i < length (admitted_rows env maxInsert (Requests p))
            \<and> r = admitted_rows env maxInsert (Requests p) ! i
          \<longrightarrow> column 4 args i = Some (AString (take 255 (UserAgent r)))
            \<and> column 10 args i = Some (AString (take 255 (UserID r)))
            \<and> column 2 args i = Some (AString (take 255 (Hostname r)))
            \<and> column 1 args i = Some (AString (take 255 (Path r)))
            \<and> ValidUserAgent env (take 255 (UserAgent r))
            \<and> ValidUserID env (take 255 (UserID r))
            \<and> ValidHostname env (take 255 (Hostname r))
            \<and> ValidPath env (take 255 (Path r)))"
proof (intro conjI impI)
  show "logRequestHandler env' rl body = logRequestHandler env rl body"
    unfolding assms(5)
    by (simp add: logRequestHandler_def requests_loop_validators [OF assms(1-4)] Let_def
        split: option.splits prod.splits)
next
  assume h: "passes_checks env rl p fw \<and> i < length (admitted_rows env maxInsert (Requests p))
            \<and> r = admitted_rows env maxInsert (Requests p) ! i"
  then have pc: "passes_checks env rl p fw"
    and i: "i < length (admitted_rows env maxInsert (Requests p))"
    and r: "r = admitted_rows env maxInsert (Requests p) ! i"
    by simp_all
  have adm: "admitted env r"
    using admitted_rows_admitted [OF nth_mem [OF i]] r by simp
  note col = handler_column [OF pc i]
  show "column 4 args i = Some (AString (take 255 (UserAgent r)))"
    using col [of 4] stored_row_columns(4) [OF adm] r assms(6) by simp
  show "column 10 args i = Some (AString (take 255 (UserID r)))"
    using col [of 10] stored_row_columns(6) [OF adm] r assms(6) by simp
  show "column 2 args i = Some (AString (take 255 (Hostname r)))"
    using col [of 2] stored_row_columns(2) [OF adm] r assms(6) by simp
  show "column 1 args i = Some (AString (take 255 (Path r)))"
    using col [of 1] stored_row_columns(1) [OF adm] r assms(6) by simp
  show "ValidUserAgent env (take 255 (UserAgent r))" "ValidUserID env (take 255 (UserID r))"
    "ValidHostname env (take 255 (Hostname r))" "ValidPath env (take 255 (Path r))"
    using adm by (simp_all add: admitted_def)
qed

theorem validation_on_truncated_fields_witness:
  "logRequestHandler strict_env 0 (Some example_long)
     = logRequestHandler example_env 0 (Some example_long)
   \<and> \<not> ValidUserAgent strict_env (UserAgent long_request)
   \<and> passes_checks example_env 0 example_long 1
   \<and> 0 < length (admitted_rows example_env maxInsert (Requests example_long))
   \<and> column 4 (exec_arguments (logRequestHandler strict_env 0 (Some example_long))) 0
       = Some (AString (replicate 255 CHR ''a''))"
proof -
  have agree: "\<forall>s. length s \<le> 255 \<longrightarrow> short_printable s = ValidUserAgent example_env s"
    "\<forall>s. length s \<le> 255 \<longrightarrow> short_printable s = ValidUserID example_env s"
    "\<forall>s. length s \<le> 255 \<longrightarrow> short_printable s = ValidHostname example_env s"
    "\<forall>s. length s \<le> 255 \<longrightarrow> short_printable s = ValidPath example_env s"
    by (simp_all add: short_printable_def example_env_def)
  have rejected: "\<not> ValidUserAgent strict_env (UserAgent long_request)"
    by (simp add: strict_env_def short_printable_def long_request_def)
  have pc: "passes_checks example_env 0 example_long 1"
    by (simp add: passes_checks_def example_env_def example_payload_def example_long_def
        frameworkID_def)
  have adm: "admitted example_env long_request"
    by (simp add: admitted_def example_env_def example_request_def long_request_def
        methodID_def printable_def list_all_iff)
  have rows: "admitted_rows example_env maxInsert (Requests example_long) = [long_request]"
    by (simp add: admitted_rows_def example_long_def adm maxInsert_def)
  note t = validation_on_truncated_fields [OF agree strict_env_def refl,
      where body = "Some example_long" and rl = 0 and p = example_long and fw = 1 and i = 0
        and r = long_request]
  have same: "logRequestHandler strict_env 0 (Some example_long)
     = logRequestHandler example_env 0 (Some example_long)"
    using t by simp
  have col: "column 4 (exec_arguments (logRequestHandler example_env 0 (Some example_long))) 0
       = Some (AString (replicate 255 CHR ''a''))"
    using t pc rows by (simp add: long_request_def)
  show ?thesis
    using same rejected pc rows col by simp
qed

text \<open>
  C7. A capture call with an empty API key changes nothing. With a non-empty API key the
  event is appended to the buffer; when the time since the last flush exceeds one minute,
  by however much, exactly one flush is started, with the whole buffer including the new event
  as one payload, the buffer is emptied and the last-flush time is set to the call's
  \<open>now\<close>; otherwise the event stays in the buffer and no flush is started.
\<close>

theorem capture_buffers_and_flushes_once:
  "(apiKey = [] \<longrightarrow> LogRequest t_now t_since apiKey request framework privacyLevel s = s)
   \<and> (apiKey \<noteq> [] \<and> t_since - lastPosted s > Minute \<longrightarrow>
        LogRequest t_now t_since apiKey request framework privacyLevel s
          = \<lparr>requests = [], lastPosted = t_now,
             spawned = spawned s
               @ [\<lparr>core_APIKey = apiKey, core_Requests = requests s @ [request],
                   core_Framework = framework, core_PrivacyLevel = privacyLevel\<rparr>]\<rparr>)
   \<and> (apiKey \<noteq> [] \<and> \<not> t_since - lastPosted s > Minute \<longrightarrow>
        LogRequest t_now t_since apiKey request framework privacyLevel s
          = \<lparr>requests = requests s @ [request], lastPosted = lastPosted s,
             spawned = spawned s\<rparr>)"
  by (simp add: LogRequest_def postRequest_def Let_def)

theorem capture_buffers_and_flushes_once_witness:
  "LogRequest 5 5 [] (example_event ''/a'') ''Gin'' 0
     \<lparr>requests = [example_event ''/z''], lastPosted = 0, spawned = []\<rparr>
     = \<lparr>requests = [example_event ''/z''], lastPosted = 0, spawned = []\<rparr>
   \<and> LogRequest (10 * Minute) (10 * Minute + 1) ''k1'' (example_event ''/a'') ''Gin'' 0
       \<lparr>requests = [example_event ''/z''], lastPosted = 0, spawned = []\<rparr>
     = \<lparr>requests = [], lastPosted = 10 * Minute,
        spawned = [\<lparr>core_APIKey = ''k1'',
                    core_Requests = [example_event ''/z'', example_event ''/a''],
                    core_Framework = ''Gin'', core_PrivacyLevel = 0\<rparr>]\<rparr>
   \<and> LogRequest 5 5 ''k1'' (example_event ''/a'') ''Gin'' 0
       \<lparr>requests = [example_event ''/z''], lastPosted = 0, spawned = []\<rparr>
     = \<lparr>requests = [example_event ''/z'', example_event ''/a''], lastPosted = 0, spawned = []\<rparr>"
  using capture_buffers_and_flushes_once [of "[]" 5 5 "example_event ''/a''" "''Gin''" 0
      "\<lparr>requests = [example_event ''/z''], lastPosted = 0, spawned = []\<rparr>"]
    capture_buffers_and_flushes_once [of "''k1''" "10 * Minute" "10 * Minute + 1"
      "example_event ''/a''" "''Gin''" 0
      "\<lparr>requests = [example_event ''/z''], lastPosted = 0, spawned = []\<rparr>"]
    capture_buffers_and_flushes_once [of "''k1''" 5 5 "example_event ''/a''" "''Gin''" 0
      "\<lparr>requests = [example_event ''/z''], lastPosted = 0, spawned = []\<rparr>"]
  by (simp add: Minute_def)

text \<open>
  C8. Redaction is idempotent on already-redacted events: above \<open>P1\<close> (that is, for \<open>P2\<close>
  and \<open>P3\<close>), redacting an event whose IP address is already empty returns the same event
  and an empty location; in particular redacting the result of a redaction changes nothing
  and infers no location.
\<close>

theorem redact_idempotent:
  assumes "P1 < lvl" and "IPAddress r = []"
  shows "redact env lvl r = (r, [])
       \<and> redact env lvl (fst (redact env lvl r0)) = (fst (redact env lvl r0), [])"
  using assms by (simp add: redact_def getCountryCode_def Let_def)

theorem redact_idempotent_witness:
  "P1 < P2 \<and> IPAddress (example_request\<lparr>IPAddress := []\<rparr>) = []
   \<and> redact example_env P2 example_request = (example_request\<lparr>IPAddress := []\<rparr>, ''US'')
   \<and> redact example_env P2 (example_request\<lparr>IPAddress := []\<rparr>)
       = (example_request\<lparr>IPAddress := []\<rparr>, [])"
  using redact_idempotent [of P2 "example_request\<lparr>IPAddress := []\<rparr>" example_env example_request]
  by (simp add: P1_def P2_def P3_def redact_def getCountryCode_def example_env_def
      example_request_def)

text \<open>
  C9, as stated (two concurrent calls never lose an appended event), fails: the buffer is
  read and written without a lock, and when both calls read \<open>requests\<close> before either
  writes it, the event of the first writer is lost.
\<close>

theorem lost_event_counterexample:
  "at_line (call_a (run race_schedule race_start)) = Returned
   \<and> at_line (call_b (run race_schedule race_start)) = Returned
   \<and> requests (shared (run race_schedule race_start)) = [example_event ''/b'']
   \<and> spawned (shared (run race_schedule race_start)) = []
   \<and> \<not> kept (example_event ''/a'') (shared (run race_schedule race_start))"
  by (simp add: race_schedule_def race_start_def new_call_def turn_step_def step_def
      Minute_def kept_def example_event_def)

text \<open>
  C9, amended. Calls that do not overlap (the first returns before the second starts) lose
  no event: both events, and every event kept before, are in the buffer or in the payload
  of a started flush, and the shared variables are those of the two calls run one after the
  other.
\<close>

theorem sequential_calls_keep_events:
  assumes "at_line (call_a w) = L46" and "at_line (call_b w) = L46"
    and "arg_apiKey (call_a w) \<noteq> []" and "arg_apiKey (call_b w) \<noteq> []"
    and "w' = run (replicate 8 TurnA @ replicate 8 TurnB) w"
  shows "at_line (call_a w') = Returned \<and> at_line (call_b w') = Returned
       \<and> kept (arg_request (call_a w)) (shared w')
       \<and> kept (arg_request (call_b w)) (shared w')
       \<and> (kept r (shared w) \<longrightarrow> kept r (shared w'))
       \<and> shared w'
           = LogRequest (reads_now (call_b w)) (reads_since (call_b w)) (arg_apiKey (call_b w))
               (arg_request (call_b w)) (arg_framework (call_b w)) (arg_privacyLevel (call_b w))
               (LogRequest (reads_now (call_a w)) (reads_since (call_a w))
                  (arg_apiKey (call_a w)) (arg_request (call_a w)) (arg_framework (call_a w))
                  (arg_privacyLevel (call_a w)) (shared w))"
proof -
  let ?w1 = "run (replicate 8 TurnA) w"
  note a = run_call_a_alone [OF assms(1)]
  have b1: "call_b ?w1 = call_b w" using a by simp
  have "at_line (call_b ?w1) = L46" using b1 assms(2) by simp
  note b = run_call_b_alone [OF this]
  have w': "w' = run (replicate 8 TurnB) ?w1"
    using assms(5) by (simp only: run_append)
  have sh: "shared w'
           = LogRequest (reads_now (call_b w)) (reads_since (call_b w)) (arg_apiKey (call_b w))
               (arg_request (call_b w)) (arg_framework (call_b w)) (arg_privacyLevel (call_b w))
               (LogRequest (reads_now (call_a w)) (reads_since (call_a w))
                  (arg_apiKey (call_a w)) (arg_request (call_a w)) (arg_framework (call_a w))
                  (arg_privacyLevel (call_a w)) (shared w))"
    using a b b1 unfolding w' by simp
  have ra: "at_line (call_a w') = Returned" using a b unfolding w' by simp
  have rb: "at_line (call_b w') = Returned" using b unfolding w' by simp
  have ka: "kept (arg_request (call_a w)) (shared w')"
    unfolding sh by (intro kept_LogRequest kept_LogRequest_new assms(3))
  have kb: "kept (arg_request (call_b w)) (shared w')"
    unfolding sh by (intro kept_LogRequest_new assms(4))
  have kr: "kept r (shared w) \<longrightarrow> kept r (shared w')"
    unfolding sh by (auto intro: kept_LogRequest)
  show ?thesis
    using ra rb ka kb kr sh by blast
qed

theorem sequential_calls_keep_events_witness:
  "at_line (call_a race_start) = L46 \<and> at_line (call_b race_start) = L46
   \<and> arg_apiKey (call_a race_start) \<noteq> [] \<and> arg_apiKey (call_b race_start) \<noteq> []
   \<and> kept (example_event ''/a'') (shared (run (replicate 8 TurnA @ replicate 8 TurnB) race_start))
   \<and> kept (example_event ''/b'') (shared (run (replicate 8 TurnA @ replicate 8 TurnB) race_start))
   \<and> shared (run (replicate 8 TurnA @ replicate 8 TurnB) race_start)
       = \<lparr>requests = [example_event ''/a'', example_event ''/b''], lastPosted = 0, spawned = []\<rparr>"
proof -
  have h: "at_line (call_a race_start) = L46" "at_line (call_b race_start) = L46"
    "arg_apiKey (call_a race_start) \<noteq> []" "arg_apiKey (call_b race_start) \<noteq> []"
    by (simp_all add: race_start_def new_call_def)
  note t = sequential_calls_keep_events [OF h refl]
  have args: "arg_request (call_a race_start) = example_event ''/a''"
    "arg_request (call_b race_start) = example_event ''/b''"
    by (simp_all add: race_start_def new_call_def)
  have sh: "shared (run (replicate 8 TurnA @ replicate 8 TurnB) race_start)
       = \<lparr>requests = [example_event ''/a'', example_event ''/b''], lastPosted = 0, spawned = []\<rparr>"
    using t [THEN conjunct2, THEN conjunct2, THEN conjunct2, THEN conjunct2, THEN conjunct2]
    by (simp add: race_start_def new_call_def LogRequest_def Minute_def)
  show ?thesis
    using h t [THEN conjunct2, THEN conjunct2, THEN conjunct1]
      t [THEN conjunct2, THEN conjunct2, THEN conjunct2, THEN conjunct1] sh
    by (simp only: args simp_thms)
qed

text \<open>
  C10. The privacy level is any integer: a level \<open>l\<close> gives the outcome of its tier, \<open>P1\<close>
  for \<open>l \<le> 0\<close> (0 is what an omitted field is bound to), \<open>P2\<close> for \<open>l = 1\<close>, \<open>P3\<close> for
  \<open>l \<ge> 2\<close>. For every event the handler stores at level \<open>l\<close>: at or below 0 the stored IP
  address (column 3) is the input's and the stored location (column 9) is inferred from it;
  at 1 the stored IP address is empty and the location is inferred from the input's IP
  address; from 2 on both are empty. The redaction step of the loop does the same.
\<close>

theorem privacy_level_tiers:
  "logRequestHandler env rl (Some (p\<lparr>PrivacyLevel := l\<rparr>))
     = logRequestHandler env rl (Some (p\<lparr>PrivacyLevel := privacy_tier l\<rparr>))
   \<and> privacy_tier l = (if l \<le> 0 then P1 else if l = 1 then P2 else P3)
   \<and> redact env l r
       = (if l \<le> 0 then (r, getCountryCode env (IPAddress r))
          else if l = 1 then (r\<lparr>IPAddress := []\<rparr>, getCountryCode env (IPAddress r))
          else (r\<lparr>IPAddress := []\<rparr>, []))
   \<and> (passes_checks env rl p fw \<and> i < length (admitted_rows env maxInsert (Requests p)) \<longrightarrow>
        column 3 (exec_arguments (logRequestHandler env rl (Some (p\<lparr>PrivacyLevel := l\<rparr>)))) i
          = Some (AString (if l \<le> 0
                           then IPAddress (admitted_rows env maxInsert (Requests p) ! i)
                           else []))
      \<and> column 9 (exec_arguments (logRequestHandler env rl (Some (p\<lparr>PrivacyLevel := l\<rparr>)))) i
          = Some (AString (if l \<le> 1
                           then getCountryCode env
                                  (IPAddress (admitted_rows env maxInsert (Requests p) ! i))
                           else [])))"
proof (intro conjI impI)
  show "logRequestHandler env rl (Some (p\<lparr>PrivacyLevel := l\<rparr>))
     = logRequestHandler env rl (Some (p\<lparr>PrivacyLevel := privacy_tier l\<rparr>))"
    by (simp add: logRequestHandler_def requests_loop_privacy_tier Let_def
        split: option.splits prod.splits)
  show "privacy_tier l = (if l \<le> 0 then P1 else if l = 1 then P2 else P3)"
    by (simp add: privacy_tier_def)
  show "redact env l r
       = (if l \<le> 0 then (r, getCountryCode env (IPAddress r))
          else if l = 1 then (r\<lparr>IPAddress := []\<rparr>, getCountryCode env (IPAddress r))
          else (r\<lparr>IPAddress := []\<rparr>, []))"
    by (simp add: redact_def P1_def P3_def)
next
  let ?p = "p\<lparr>PrivacyLevel := l\<rparr>"
  let ?rows = "admitted_rows env maxInsert (Requests p)"
  assume h: "passes_checks env rl p fw \<and> i < length ?rows"
  have pc: "passes_checks env rl ?p fw"
    using h by (simp add: passes_checks_def)
  have i: "i < length (admitted_rows env maxInsert (Requests ?p))"
    using h by simp
  have adm: "admitted env (?rows ! i)"
    using admitted_rows_admitted [OF nth_mem [of i ?rows]] h by simp
  show "column 3 (exec_arguments (logRequestHandler env rl (Some ?p))) i
          = Some (AString (if l \<le> 0 then IPAddress (?rows ! i) else []))"
    using handler_column [OF pc i, of 3] stored_row_columns(3) [OF adm, of ?p fw]
    by (simp add: P1_def)
  show "column 9 (exec_arguments (logRequestHandler env rl (Some ?p))) i
          = Some (AString (if l \<le> 1 then getCountryCode env (IPAddress (?rows ! i)) else []))"
    using handler_column [OF pc i, of 9] stored_row_columns(5) [OF adm, of ?p fw]
    by (simp add: P3_def)
qed

theorem privacy_level_tiers_witness:
  "logRequestHandler example_env 0 (Some (example_payload\<lparr>PrivacyLevel := - 5\<rparr>))
     = logRequestHandler example_env 0 (Some (example_payload\<lparr>PrivacyLevel := P1\<rparr>))
   \<and> logRequestHandler example_env 0 (Some (example_payload\<lparr>PrivacyLevel := 7\<rparr>))
     = logRequestHandler example_env 0 (Some (example_payload\<lparr>PrivacyLevel := P3\<rparr>))
   \<and> redact example_env (- 5) example_request = (example_request, ''US'')
   \<and> redact example_env 7 example_request = (example_request\<lparr>IPAddress := []\<rparr>, [])
   \<and> passes_checks example_env 0 example_payload 1
   \<and> 0 < length (admitted_rows example_env maxInsert (Requests example_payload))
   \<and> column 3 (exec_arguments (logRequestHandler example_env 0
                 (Some (example_payload\<lparr>PrivacyLevel := - 5\<rparr>)))) 0
       = Some (AString ''8.8.8.8'')
   \<and> column 9 (exec_arguments (logRequestHandler example_env 0
                 (Some (example_payload\<lparr>PrivacyLevel := - 5\<rparr>)))) 0
       = Some (AString ''US'')
   \<and> column 3 (exec_arguments (logRequestHandler example_env 0
                 (Some (example_payload\<lparr>PrivacyLevel := 1\<rparr>)))) 0
       = Some (AString [])
   \<and> column 9 (exec_arguments (logRequestHandler example_env 0
                 (Some (example_payload\<lparr>PrivacyLevel := 1\<rparr>)))) 0
       = Some (AString ''US'')
   \<and> column 3 (exec_arguments (logRequestHandler example_env 0
                 (Some (example_payload\<lparr>PrivacyLevel := 7\<rparr>)))) 0
       = Some (AString [])
   \<and> column 9 (exec_arguments (logRequestHandler example_env 0
                 (Some (example_payload\<lparr>PrivacyLevel := 7\<rparr>)))) 0
       = Some (AString [])"
proof -
  have pc: "passes_checks example_env 0 example_payload 1"
    using example_passes_checks [of 1] by (simp add: passes_checks_def)
  have rows: "0 < length (admitted_rows example_env maxInsert (Requests example_payload))"
    by (simp add: example_admitted_rows)
  note t = privacy_level_tiers [where env = example_env and rl = 0 and p = example_payload
      and r = example_request and fw = 1 and i = 0]
  note cols = t [THEN conjunct2, THEN conjunct2, THEN conjunct2, rule_format, OF conjI,
      OF pc rows]
  have same: "logRequestHandler example_env 0 (Some (example_payload\<lparr>PrivacyLevel := - 5\<rparr>))
     = logRequestHandler example_env 0 (Some (example_payload\<lparr>PrivacyLevel := P1\<rparr>))"
    "logRequestHandler example_env 0 (Some (example_payload\<lparr>PrivacyLevel := 7\<rparr>))
     = logRequestHandler example_env 0 (Some (example_payload\<lparr>PrivacyLevel := P3\<rparr>))"
    using t [of "- 5", THEN conjunct1] t [of 7, THEN conjunct1]
    by (simp_all add: privacy_tier_def)
  have red: "redact example_env (- 5) example_request = (example_request, ''US'')"
    "redact example_env 7 example_request = (example_request\<lparr>IPAddress := []\<rparr>, [])"
    using t [of "- 5", THEN conjunct2, THEN conjunct2, THEN conjunct1]
      t [of 7, THEN conjunct2, THEN conjunct2, THEN conjunct1]
    by (simp_all add: example_getCountryCode example_IPAddress)
  have low: "column 3 (exec_arguments (logRequestHandler example_env 0
                 (Some (example_payload\<lparr>PrivacyLevel := - 5\<rparr>)))) 0
       = Some (AString ''8.8.8.8'')"
    "column 9 (exec_arguments (logRequestHandler example_env 0
                 (Some (example_payload\<lparr>PrivacyLevel := - 5\<rparr>)))) 0
       = Some (AString ''US'')"
    using cols [of "- 5"]
    by (simp_all add: example_getCountryCode example_IPAddress example_admitted_rows)
  have mid: "column 3 (exec_arguments (logRequestHandler example_env 0
                 (Some (example_payload\<lparr>PrivacyLevel := 1\<rparr>)))) 0
       = Some (AString [])"
    "column 9 (exec_arguments (logRequestHandler example_env 0
                 (Some (example_payload\<lparr>PrivacyLevel := 1\<rparr>)))) 0
       = Some (AString ''US'')"
    using cols [of 1]
    by (simp_all add: example_getCountryCode example_IPAddress example_admitted_rows)
  have high: "column 3 (exec_arguments (logRequestHandler example_env 0
                 (Some (example_payload\<lparr>PrivacyLevel := 7\<rparr>)))) 0
       = Some (AString [])"
    "column 9 (exec_arguments (logRequestHandler example_env 0
                 (Some (example_payload\<lparr>PrivacyLevel := 7\<rparr>)))) 0
       = Some (AString [])"
    using cols [of 7] by simp_all
  show ?thesis
    using same red pc rows low mid high by (intro conjI)
qed

end
